theory Spec2Isabelle
  imports Main "HOL-Library.Monad_Syntax"
begin

section \<open>The UDPipe wrapper of canopy-parser: data model\<close>

text \<open>
  This theory embeds \<^verbatim>\<open>crates/canopy-parser/udpipe_wrapper.cpp\<close> and its header.
  The wrapper hands the words of a UDPipe \<^verbatim>\<open>sentence\<close> across a C boundary as flat
  structs whose text fields are buffers obtained from \<^verbatim>\<open>malloc\<close>.

  The internal objects come first. Of \<^verbatim>\<open>ufal::udpipe::word\<close> and
  \<^verbatim>\<open>ufal::udpipe::sentence\<close> the wrapper reads only the fields below. A
  \<^verbatim>\<open>std::string\<close> is a \<^typ>\<open>string\<close>: it knows its length and may hold any byte,
  the NUL byte included. The fields of the internal word carry the suffix \<open>_w\<close>, the
  fields of the C structs the suffix \<open>_c\<close>, since both structs use the same field
  names in the source.
\<close>

record word =
  id_w :: int
  form_w :: string
  lemma_w :: string
  upostag_w :: string
  xpostag_w :: string
  feats_w :: string
  head_w :: int
  deprel_w :: string
  deps_w :: string
  misc_w :: string

record sentence =
  words_s :: "word list"

text \<open>
  Pointers are addresses; address 0 is the null pointer. \<^verbatim>\<open>UDPipeWord\<close> and
  \<^verbatim>\<open>UDPipeSentence\<close> are the structs of the header, field by field. The scalar
  fields are copied and never computed with, so \<^typ>\<open>int\<close> and \<^typ>\<open>nat\<close> stand for
  \<^verbatim>\<open>int\<close> and \<^verbatim>\<open>size_t\<close>. The one product, \<^verbatim>\<open>sizeof(UDPipeWord) * word_count\<close>,
  cannot wrap: the vector of internal words, whose elements are larger than a
  \<^verbatim>\<open>UDPipeWord\<close>, is in memory when it is computed.
\<close>

type_synonym addr = nat

abbreviation (input) nullptr :: addr where
  "nullptr \<equiv> 0"

record UDPipeWord =
  id_c :: int
  form_c :: addr
  lemma_c :: addr
  upostag_c :: addr
  xpostag_c :: addr
  feats_c :: addr
  head_c :: int
  deprel_c :: addr
  deps_c :: addr
  misc_c :: addr

record UDPipeSentence =
  words_c :: addr
  word_count_c :: nat
  text_c :: addr

section \<open>The allocator\<close>

text \<open>
  A block is what one successful \<^verbatim>\<open>malloc\<close> returned: a \<^verbatim>\<open>char\<close> buffer, an
  array of \<^verbatim>\<open>UDPipeWord\<close> or one \<^verbatim>\<open>UDPipeSentence\<close>. Memory fresh from
  \<^verbatim>\<open>malloc\<close> is indeterminate: \<open>None\<close> marks a byte, an array element or a struct
  that has not been written yet.

  The heap keeps one cell per call of \<^verbatim>\<open>malloc\<close>, in call order: the block while it
  is live, \<open>None\<close> once it is freed or when the call failed. The \<open>k\<close>-th call
  (counting from 0) succeeds iff \<open>alloc_ok h k\<close>, and then returns address \<open>k + 1\<close>,
  so an address is never handed out twice. Only \<^verbatim>\<open>malloc\<close> is modelled as able
  to fail; the allocations that the C++ runtime makes for temporaries are not.
\<close>

datatype block =
    Chars "char option list"
  | Words "UDPipeWord option list"
  | Sentence "UDPipeSentence option"

record heap =
  cells :: "block option list"
  alloc_ok :: "nat \<Rightarrow> bool"

definition live :: "heap \<Rightarrow> addr \<Rightarrow> block option" where
  "live h p = (if 0 < p \<and> p \<le> length (cells h) then cells h ! (p - 1) else None)"

definition store :: "addr \<Rightarrow> block \<Rightarrow> heap \<Rightarrow> heap" where
  "store p b h = (if 0 < p then h\<lparr>cells := (cells h)[p - 1 := Some b]\<rparr> else h)"

definition malloc :: "block \<Rightarrow> heap \<Rightarrow> addr \<times> heap" where
  "malloc b h =
     (if alloc_ok h (length (cells h))
      then (Suc (length (cells h)), h\<lparr>cells := cells h @ [Some b]\<rparr>)
      else (nullptr, h\<lparr>cells := cells h @ [None]\<rparr>))"

text \<open>
  \<^verbatim>\<open>free(NULL)\<close> does nothing. Freeing an address that holds no live block (a double
  free, a pointer that \<^verbatim>\<open>malloc\<close> never returned) is undefined behaviour: the result
  \<open>None\<close>, here and in every operation below, stands for a crash.
\<close>

definition free :: "addr \<Rightarrow> heap \<Rightarrow> heap option" where
  "free p h =
     (if p = nullptr then Some h
      else case live h p of
        None \<Rightarrow> None
      | Some b \<Rightarrow> Some (h\<lparr>cells := (cells h)[p - 1 := None]\<rparr>))"

section \<open>C strings and \<^verbatim>\<open>duplicate_string\<close>\<close>

definition NUL :: char where
  "NUL = CHR 0x00"

text \<open>
  \<open>c_str s\<close> is what a reader of \<^verbatim>\<open>s.c_str()\<close> as a C string sees: the bytes before
  the first NUL. It is also the \<^verbatim>\<open>std::string\<close> that C++ builds from a
  \<^verbatim>\<open>const char*\<close>.
\<close>

definition c_str :: "string \<Rightarrow> string" where
  "c_str s = takeWhile (\<lambda>c. c \<noteq> NUL) s"

text \<open>
  \<^verbatim>\<open>strcpy(dest, src.c_str())\<close> writes the bytes of \<open>c_str src\<close> and the terminator
  at the start of the destination buffer and leaves the rest of it as it was.
\<close>

definition strcpy :: "char option list \<Rightarrow> string \<Rightarrow> char option list" where
  "strcpy dest src = map Some (c_str src @ [NUL]) @ drop (Suc (length (c_str src))) dest"

text \<open>
  \<^verbatim>\<open>duplicate_string\<close> (lines 10-19): null for the empty string; otherwise a buffer of
  \<open>length + 1\<close> bytes and, when the allocation succeeded, the copy. The result of
  \<^verbatim>\<open>malloc\<close> is returned as it is, so a failed allocation also yields null.
\<close>

definition duplicate_string :: "string \<Rightarrow> heap \<Rightarrow> addr \<times> heap" where
  "duplicate_string str h =
     (if str = [] then (nullptr, h)
      else
        let (result, h1) = malloc (Chars (replicate (length str + 1) None)) h
        in if result \<noteq> nullptr
           then (result, store result (Chars (strcpy (replicate (length str + 1) None) str)) h1)
           else (result, h1))"

text \<open>
  Reading a buffer back as a C string: the bytes up to the first NUL. Running into an
  indeterminate byte or past the end of the buffer is undefined.
\<close>

fun c_string_of :: "char option list \<Rightarrow> string option" where
  "c_string_of [] = None"
| "c_string_of (None # bs) = None"
| "c_string_of (Some c # bs) =
     (if c = NUL then Some [] else map_option ((#) c) (c_string_of bs))"

datatype text_view = Absent | Content string | Dangling

definition read_str :: "heap \<Rightarrow> addr \<Rightarrow> text_view" where
  "read_str h p =
     (if p = nullptr then Absent
      else case live h p of
        Some (Chars bs) \<Rightarrow> (case c_string_of bs of Some s \<Rightarrow> Content s | None \<Rightarrow> Dangling)
      | _ \<Rightarrow> Dangling)"

section \<open>Creating and destroying a sentence record\<close>

text \<open>\<^verbatim>\<open>udpipe_sentence_create\<close> (lines 21-29).\<close>

definition udpipe_sentence_create :: "heap \<Rightarrow> addr \<times> heap" where
  "udpipe_sentence_create h =
     (let (result, h1) = malloc (Sentence None) h
      in if result \<noteq> nullptr
         then (result,
               store result
                 (Sentence (Some \<lparr>words_c = nullptr, word_count_c = 0, text_c = nullptr\<rparr>)) h1)
         else (result, h1))"

text \<open>The eight calls of \<^verbatim>\<open>free\<close> in the loop body of the destructor (lines 37-44).\<close>

definition free_word :: "UDPipeWord \<Rightarrow> heap \<Rightarrow> heap option" where
  "free_word word h = do {
     h \<leftarrow> free (form_c word) h;
     h \<leftarrow> free (lemma_c word) h;
     h \<leftarrow> free (upostag_c word) h;
     h \<leftarrow> free (xpostag_c word) h;
     h \<leftarrow> free (feats_c word) h;
     h \<leftarrow> free (deprel_c word) h;
     h \<leftarrow> free (deps_c word) h;
     free (misc_c word) h
   }"

text \<open>
  The loop of the destructor (lines 35-45), from index \<open>i\<close> on. As in the source,
  \<^verbatim>\<open>sentence->word_count\<close> and \<^verbatim>\<open>sentence->words\<close> are read from memory in every
  iteration. Reading through a null or dangling \<^verbatim>\<open>words\<close> pointer, past the end of
  the array, or an element that was never written is undefined.
\<close>

definition word_count_at :: "heap \<Rightarrow> addr \<Rightarrow> nat" where
  "word_count_at h p = (case live h p of Some (Sentence (Some r)) \<Rightarrow> word_count_c r | _ \<Rightarrow> 0)"

function destroy_loop :: "addr \<Rightarrow> nat \<Rightarrow> heap \<Rightarrow> heap option" where
  "destroy_loop sentence i h =
     (case live h sentence of
        Some (Sentence (Some r)) \<Rightarrow>
          if i < word_count_c r then
            (if words_c r = nullptr then None
             else case live h (words_c r) of
               Some (Words ws) \<Rightarrow>
                 (if i < length ws then
                    (case ws ! i of
                       Some word \<Rightarrow>
                         (case free_word word h of
                            Some h' \<Rightarrow> destroy_loop sentence (Suc i) h'
                          | None \<Rightarrow> None)
                     | None \<Rightarrow> None)
                  else None)
             | _ \<Rightarrow> None)
          else Some h
      | _ \<Rightarrow> None)"
  by pat_completeness auto
termination
proof (relation "measure (\<lambda>(sentence, i, h). word_count_at h sentence - i)", goal_cases)
  case 1
  show ?case by simp
next
  case (2 sentence i h b so r wb ws word h')
  have shrink: "word_count_at hb sentence \<le> word_count_at ha sentence"
    if "free p ha = Some hb" for p ha hb
    using that
    by (auto simp: free_def word_count_at_def live_def nth_list_update
        split: if_splits option.splits)
  from 2 have "free_word word h = Some h'"
    by simp
  then obtain h1 h2 h3 h4 h5 h6 h7 where
    "free (form_c word) h = Some h1" "free (lemma_c word) h1 = Some h2"
    "free (upostag_c word) h2 = Some h3" "free (xpostag_c word) h3 = Some h4"
    "free (feats_c word) h4 = Some h5" "free (deprel_c word) h5 = Some h6"
    "free (deps_c word) h6 = Some h7" "free (misc_c word) h7 = Some h'"
    by (auto simp: free_word_def bind_eq_Some_conv)
  then have
    "word_count_at h1 sentence \<le> word_count_at h sentence"
    "word_count_at h2 sentence \<le> word_count_at h1 sentence"
    "word_count_at h3 sentence \<le> word_count_at h2 sentence"
    "word_count_at h4 sentence \<le> word_count_at h3 sentence"
    "word_count_at h5 sentence \<le> word_count_at h4 sentence"
    "word_count_at h6 sentence \<le> word_count_at h5 sentence"
    "word_count_at h7 sentence \<le> word_count_at h6 sentence"
    "word_count_at h' sentence \<le> word_count_at h7 sentence"
    by (simp_all add: shrink)
  then have "word_count_at h' sentence \<le> word_count_at h sentence"
    by linarith
  moreover have "word_count_at h sentence = word_count_c r"
    using 2 by (simp add: word_count_at_def)
  ultimately show ?case
    using 2 by simp
qed

text \<open>\<^verbatim>\<open>udpipe_sentence_destroy\<close> (lines 31-50).\<close>

definition udpipe_sentence_destroy :: "addr \<Rightarrow> heap \<Rightarrow> heap option" where
  "udpipe_sentence_destroy sentence h =
     (if sentence = nullptr then Some h
      else do {
        h1 \<leftarrow> destroy_loop sentence 0 h;
        (case live h1 sentence of
           Some (Sentence (Some r)) \<Rightarrow> do {
             h2 \<leftarrow> free (words_c r) h1;
             (case live h2 sentence of
                Some (Sentence (Some r2)) \<Rightarrow> do {
                  h3 \<leftarrow> free (text_c r2) h2;
                  free sentence h3
                }
              | _ \<Rightarrow> None)
           }
         | _ \<Rightarrow> None)
      })"

section \<open>The accessors of an internal sentence\<close>

text \<open>
  \<^verbatim>\<open>operator[]\<close> of \<^verbatim>\<open>std::vector\<close> does not check its index: an index past the
  end is undefined behaviour, the \<open>None\<close> of \<open>at\<close>.
\<close>

definition at :: "'a list \<Rightarrow> nat \<Rightarrow> 'a option" where
  "at xs i = (if i < length xs then Some (xs ! i) else None)"

text \<open>
  \<^verbatim>\<open>udpipe_sentence_get_word_count\<close> (lines 155-160). The handle is \<open>None\<close> when the
  pointer is null and the sentence it points to otherwise.
\<close>

definition udpipe_sentence_get_word_count :: "sentence option \<Rightarrow> nat" where
  "udpipe_sentence_get_word_count sentence_ptr =
     (case sentence_ptr of None \<Rightarrow> 0 | Some s \<Rightarrow> length (words_s s))"

text \<open>
  \<^verbatim>\<open>udpipe_sentence_get_word\<close> (lines 162-186). The output parameter \<^verbatim>\<open>word\<close> is
  \<open>None\<close> for a null pointer and otherwise holds what the caller's struct contains
  before the call; the function returns the flag, what the struct contains after the
  call, and the heap.
\<close>

definition udpipe_sentence_get_word ::
  "sentence option \<Rightarrow> nat \<Rightarrow> UDPipeWord option \<Rightarrow> heap \<Rightarrow> (int \<times> UDPipeWord option \<times> heap) option"
where
  "udpipe_sentence_get_word sentence_ptr index word h =
     (case sentence_ptr of
        None \<Rightarrow> Some (0, word, h)
      | Some s \<Rightarrow>
          if word = None then Some (0, word, h)
          else if index \<ge> length (words_s s) then Some (0, word, h)
          else
            (case at (words_s s) index of
               None \<Rightarrow> None
             | Some w \<Rightarrow>
                 let (form, h) = duplicate_string (form_w w) h;
                     (lemma', h) = duplicate_string (lemma_w w) h;
                     (upostag, h) = duplicate_string (upostag_w w) h;
                     (xpostag, h) = duplicate_string (xpostag_w w) h;
                     (feats, h) = duplicate_string (feats_w w) h;
                     (deprel, h) = duplicate_string (deprel_w w) h;
                     (deps, h) = duplicate_string (deps_w w) h;
                     (misc, h) = duplicate_string (misc_w w) h
                 in Some (1,
                      Some \<lparr>id_c = id_w w, form_c = form, lemma_c = lemma', upostag_c = upostag,
                            xpostag_c = xpostag, feats_c = feats, head_c = head_w w,
                            deprel_c = deprel, deps_c = deps, misc_c = misc\<rparr>,
                      h)))"

section \<open>The external model\<close>

text \<open>
  The UDPipe model is an external collaborator, so it is a parameter: a record of the
  three calls the wrapper makes. A call returns or throws; \<open>Throws_exception what\<close> is
  an exception derived from \<^verbatim>\<open>std::exception\<close> with the text of \<^verbatim>\<open>what()\<close>,
  \<open>Throws_other\<close> is anything else that can be thrown.

  A tokenizer stands for \<^verbatim>\<open>set_text(text)\<close> followed by
  \<^verbatim>\<open>next_sentence(s, error)\<close> on a fresh sentence and error string: it returns the
  flag, the sentence and the error string. \<^verbatim>\<open>tag\<close> and \<^verbatim>\<open>parse\<close> receive the
  sentence and the error string by reference and may change both. Being functions, the
  calls are deterministic: the state of the model is fixed.
\<close>

datatype 'a outcome = Returns 'a | Throws_exception string | Throws_other

type_synonym stage = "(bool \<times> sentence \<times> string) outcome"

record model =
  new_tokenizer :: "(string \<Rightarrow> stage) option outcome"
  tag :: "sentence \<Rightarrow> string \<Rightarrow> stage"
  parse :: "sentence \<Rightarrow> string \<Rightarrow> stage"

section \<open>\<^verbatim>\<open>udpipe_process_text\<close>\<close>

text \<open>
  The result of a call: the returned flag, the content of \<^verbatim>\<open>*error_msg\<close> after the
  call (\<open>None\<close> when \<^verbatim>\<open>error_msg\<close> itself is null), and the heap. The parameter
  \<open>error_msg\<close> is \<open>None\<close> for a null pointer and otherwise holds the pointer that the
  caller's variable contains before the call.

  Every failure path of the source has the shape
  \<^verbatim>\<open>if (error_msg) { *error_msg = duplicate_string(msg); } return 0;\<close>
\<close>

type_synonym result = "(int \<times> addr option \<times> heap) option"

definition report_error :: "addr option \<Rightarrow> string \<Rightarrow> heap \<Rightarrow> result" where
  "report_error error_msg msg h =
     (case error_msg of
        None \<Rightarrow> Some (0, None, h)
      | Some old \<Rightarrow> (let (p, h') = duplicate_string msg h in Some (0, Some p, h')))"

text \<open>
  The two \<^verbatim>\<open>catch\<close> clauses (lines 142-152) around a call of the model. The
  \<^verbatim>\<open>const char*\<close> of \<^verbatim>\<open>what()\<close> becomes a \<^verbatim>\<open>std::string\<close> on its way into
  \<^verbatim>\<open>duplicate_string\<close>.
\<close>

definition try_catch :: "'a outcome \<Rightarrow> addr option \<Rightarrow> heap \<Rightarrow> ('a \<Rightarrow> result) \<Rightarrow> result" where
  "try_catch call error_msg h continue =
     (case call of
        Returns v \<Rightarrow> continue v
      | Throws_exception what \<Rightarrow> report_error error_msg (c_str what) h
      | Throws_other \<Rightarrow> report_error error_msg ''Unknown error occurred'' h)"

text \<open>
  The body of the loop over the words (lines 122-134): the two scalar fields are
  copied, the eight strings go through \<^verbatim>\<open>duplicate_string\<close> in the order of the
  source, and no result is checked.
\<close>

definition copy_word :: "word \<Rightarrow> heap \<Rightarrow> UDPipeWord \<times> heap" where
  "copy_word w h =
     (let (form, h) = duplicate_string (form_w w) h;
          (lemma', h) = duplicate_string (lemma_w w) h;
          (upostag, h) = duplicate_string (upostag_w w) h;
          (xpostag, h) = duplicate_string (xpostag_w w) h;
          (feats, h) = duplicate_string (feats_w w) h;
          (deprel, h) = duplicate_string (deprel_w w) h;
          (deps, h) = duplicate_string (deps_w w) h;
          (misc, h) = duplicate_string (misc_w w) h
      in (\<lparr>id_c = id_w w, form_c = form, lemma_c = lemma', upostag_c = upostag,
           xpostag_c = xpostag, feats_c = feats, head_c = head_w w,
           deprel_c = deprel, deps_c = deps, misc_c = misc\<rparr>, h))"

text \<open>
  The loop over the words (lines 121-135), from index \<open>i\<close> on. As in the source,
  \<^verbatim>\<open>result->word_count\<close> and \<^verbatim>\<open>result->words\<close> are read from memory in every
  iteration, and \<^verbatim>\<open>s.words[i]\<close> is an unchecked access.
\<close>

function extract_words :: "sentence \<Rightarrow> addr \<Rightarrow> nat \<Rightarrow> heap \<Rightarrow> heap option" where
  "extract_words s result i h =
     (case live h result of
        Some (Sentence (Some r)) \<Rightarrow>
          if i < word_count_c r then
            (case at (words_s s) i of
               None \<Rightarrow> None
             | Some w \<Rightarrow>
                 (case copy_word w h of
                    (dest, h') \<Rightarrow>
                      (case live h' (words_c r) of
                         Some (Words ws) \<Rightarrow>
                           if i < length ws
                           then extract_words s result (Suc i)
                                  (store (words_c r) (Words (ws[i := Some dest])) h')
                           else None
                       | _ \<Rightarrow> None)))
          else Some h
      | _ \<Rightarrow> None)"
  by pat_completeness auto
termination
  by (relation "measure (\<lambda>(s, result, i, h). length (words_s s) - i)")
    (auto simp: at_def split: if_splits)

text \<open>
  Lines 138-140: the copy of the input text is attached, unchecked, and the call
  reports success. \<^verbatim>\<open>*error_msg\<close> is not written on this path.
\<close>

definition attach_text :: "string \<Rightarrow> addr \<Rightarrow> addr option \<Rightarrow> heap \<Rightarrow> result" where
  "attach_text text' result error_msg h =
     (let (t, h1) = duplicate_string text' h
      in case live h1 result of
           Some (Sentence (Some r)) \<Rightarrow>
             Some (1, error_msg, store result (Sentence (Some (r\<lparr>text_c := t\<rparr>))) h1)
         | _ \<Rightarrow> None)"

text \<open>
  Lines 110-140, the conversion of the parsed sentence. The record behind
  \<^verbatim>\<open>result\<close> must be live and initialised, as \<^verbatim>\<open>udpipe_sentence_create\<close> leaves it;
  anything else is outside the model (\<open>None\<close>). \<^verbatim>\<open>word_count\<close> is written first, the
  result of \<^verbatim>\<open>malloc\<close> is stored in \<^verbatim>\<open>words\<close> and only then tested.
\<close>

definition extract_results :: "sentence \<Rightarrow> string \<Rightarrow> addr \<Rightarrow> addr option \<Rightarrow> heap \<Rightarrow> result" where
  "extract_results s text' result error_msg h =
     (case live h result of
        Some (Sentence (Some r)) \<Rightarrow>
          let n = length (words_s s);
              h1 = store result (Sentence (Some (r\<lparr>word_count_c := n\<rparr>))) h
          in if n > 0 then
               let (words, h2) = malloc (Words (replicate n None)) h1;
                   h3 = store result (Sentence (Some (r\<lparr>word_count_c := n, words_c := words\<rparr>))) h2
               in if words = nullptr
                  then report_error error_msg ''Memory allocation failed'' h3
                  else (case extract_words s result 0 h3 of
                          None \<Rightarrow> None
                        | Some h4 \<Rightarrow> attach_text text' result error_msg h4)
             else attach_text text' result error_msg h1
      | _ \<Rightarrow> None)"

text \<open>
  \<^verbatim>\<open>udpipe_process_text\<close> (lines 52-153). \<open>model_ptr\<close> and \<open>text\<close> are \<open>None\<close> for
  null pointers; a non-null \<^verbatim>\<open>const char*\<close> is read as a C string. The error string
  of a failed stage is passed on as \<^verbatim>\<open>error.c_str()\<close> unless it is empty.
\<close>

definition udpipe_process_text ::
  "model option \<Rightarrow> string option \<Rightarrow> addr \<Rightarrow> addr option \<Rightarrow> heap \<Rightarrow> result"
where
  "udpipe_process_text model_ptr text result error_msg h =
     (case (model_ptr, text) of
        (Some udpipe_model, Some t) \<Rightarrow>
          if result = nullptr then report_error error_msg ''Invalid parameters'' h
          else
            try_catch (new_tokenizer udpipe_model) error_msg h (\<lambda>tokenizer.
              case tokenizer of
                None \<Rightarrow> report_error error_msg ''Failed to create tokenizer'' h
              | Some next_sentence \<Rightarrow>
                  try_catch (next_sentence (c_str t)) error_msg h (\<lambda>(ok, s, error).
                    if \<not> ok
                    then report_error error_msg
                           (if error = [] then ''No sentence found'' else c_str error) h
                    else
                      try_catch (tag udpipe_model s error) error_msg h (\<lambda>(ok, s, error).
                        if \<not> ok
                        then report_error error_msg
                               (if error = [] then ''POS tagging failed'' else c_str error) h
                        else
                          try_catch (parse udpipe_model s error) error_msg h (\<lambda>(ok, s, error).
                            if \<not> ok
                            then report_error error_msg
                                   (if error = [] then ''Dependency parsing failed''
                                    else c_str error) h
                            else extract_results s (c_str t) result error_msg h))))
      | _ \<Rightarrow> report_error error_msg ''Invalid parameters'' h)"

section \<open>What a caller observes\<close>

text \<open>
  Two records are compared by what their pointers lead to, not by the pointers: a text
  field is viewed through \<open>read_str\<close>, a word as its ten viewed fields, a sentence
  record as its count, the views of \<^verbatim>\<open>words[0 .. word_count - 1]\<close> and the view of
  its text. An element that cannot be read (no array behind \<^verbatim>\<open>words\<close>, an index past
  its end, an element never written) is viewed as \<open>None\<close>.
\<close>

record word_view =
  id_v :: int
  form_v :: text_view
  lemma_v :: text_view
  upostag_v :: text_view
  xpostag_v :: text_view
  feats_v :: text_view
  head_v :: int
  deprel_v :: text_view
  deps_v :: text_view
  misc_v :: text_view

definition view_word :: "heap \<Rightarrow> UDPipeWord \<Rightarrow> word_view" where
  "view_word h w =
     \<lparr>id_v = id_c w, form_v = read_str h (form_c w), lemma_v = read_str h (lemma_c w),
      upostag_v = read_str h (upostag_c w), xpostag_v = read_str h (xpostag_c w),
      feats_v = read_str h (feats_c w), head_v = head_c w,
      deprel_v = read_str h (deprel_c w), deps_v = read_str h (deps_c w),
      misc_v = read_str h (misc_c w)\<rparr>"

definition word_at :: "heap \<Rightarrow> addr \<Rightarrow> nat \<Rightarrow> UDPipeWord option" where
  "word_at h words i =
     (case live h words of
        Some (Words ws) \<Rightarrow> (if i < length ws then ws ! i else None)
      | _ \<Rightarrow> None)"

record sentence_view =
  word_count_v :: nat
  words_v :: "word_view option list"
  text_v :: text_view

definition view_sentence :: "heap \<Rightarrow> addr \<Rightarrow> sentence_view option" where
  "view_sentence h p =
     (case live h p of
        Some (Sentence (Some r)) \<Rightarrow>
          Some \<lparr>word_count_v = word_count_c r,
                words_v = map (\<lambda>i. map_option (view_word h) (word_at h (words_c r) i))
                            [0..<word_count_c r],
                text_v = read_str h (text_c r)\<rparr>
      | _ \<Rightarrow> None)"

text \<open>
  The invariant of a sentence record: the array behind \<^verbatim>\<open>words\<close> has
  \<^verbatim>\<open>word_count\<close> elements, and a record with no words has no array.
\<close>

definition sentence_invariant :: "heap \<Rightarrow> addr \<Rightarrow> bool" where
  "sentence_invariant h p =
     (case live h p of
        Some (Sentence (Some r)) \<Rightarrow>
          (if word_count_c r = 0 then words_c r = nullptr
           else case live h (words_c r) of
                  Some (Words ws) \<Rightarrow> length ws = word_count_c r
                | _ \<Rightarrow> False)
      | _ \<Rightarrow> False)"

text \<open>
  What a call of \<^verbatim>\<open>udpipe_process_text\<close> shows its caller: the flag, the error
  description read through \<^verbatim>\<open>*error_msg\<close>, and the view of the record. The sentence
  record that a call produces is the view of the record after a call that returned 1.
\<close>

definition observe :: "addr \<Rightarrow> result \<Rightarrow> (int \<times> text_view \<times> sentence_view option) option" where
  "observe result res =
     (case res of
        None \<Rightarrow> None
      | Some (flag, e, h') \<Rightarrow>
          Some (flag, (case e of None \<Rightarrow> Absent | Some p \<Rightarrow> read_str h' p),
                view_sentence h' result))"

definition produced :: "addr \<Rightarrow> result \<Rightarrow> sentence_view option" where
  "produced result res =
     (case res of
        None \<Rightarrow> None
      | Some (flag, e, h') \<Rightarrow> if flag = 1 then view_sentence h' result else None)"

definition final_heap :: "result \<Rightarrow> heap option" where
  "final_heap res = (case res of None \<Rightarrow> None | Some (flag, e, h') \<Rightarrow> Some h')"

text \<open>
  What the transfer of a string, of a word and of a whole sentence yields when every
  copy is made: the empty string becomes the absent marker, any other string the C
  string it starts with.
\<close>

definition transfer :: "string \<Rightarrow> text_view" where
  "transfer str = (if str = [] then Absent else Content (c_str str))"

definition transfer_word :: "word \<Rightarrow> word_view" where
  "transfer_word w =
     \<lparr>id_v = id_w w, form_v = transfer (form_w w), lemma_v = transfer (lemma_w w),
      upostag_v = transfer (upostag_w w), xpostag_v = transfer (xpostag_w w),
      feats_v = transfer (feats_w w), head_v = head_w w,
      deprel_v = transfer (deprel_w w), deps_v = transfer (deps_w w),
      misc_v = transfer (misc_w w)\<rparr>"

definition transfer_sentence :: "sentence \<Rightarrow> string \<Rightarrow> sentence_view" where
  "transfer_sentence s text' =
     \<lparr>word_count_v = length (words_s s),
      words_v = map (\<lambda>w. Some (transfer_word w)) (words_s s),
      text_v = transfer text'\<rparr>"

text \<open>
  The sentence that reaches the conversion (lines 66-108): the one \<^verbatim>\<open>parse\<close> leaves
  when the tokenizer exists and all three stages return true; \<open>None\<close> when a stage
  fails or throws.
\<close>

definition parsed_sentence :: "model \<Rightarrow> string \<Rightarrow> sentence option" where
  "parsed_sentence m t =
     (case new_tokenizer m of
        Returns (Some next_sentence) \<Rightarrow>
          (case next_sentence t of
             Returns (ok, s, error) \<Rightarrow>
               if \<not> ok then None
               else (case tag m s error of
                       Returns (ok, s, error) \<Rightarrow>
                         if \<not> ok then None
                         else (case parse m s error of
                                 Returns (ok, s, error) \<Rightarrow> if \<not> ok then None else Some s
                               | _ \<Rightarrow> None)
                     | _ \<Rightarrow> None)
           | _ \<Rightarrow> None)
      | _ \<Rightarrow> None)"

text \<open>No allocation fails from now on.\<close>

definition no_fail :: "heap \<Rightarrow> bool" where
  "no_fail h = (\<forall>k. length (cells h) \<le> k \<longrightarrow> alloc_ok h k)"

text \<open>
  A model describes its failures when every exception it throws has a non-empty
  \<^verbatim>\<open>what()\<close> and the error string of a failed stage, if not empty, does not begin
  with NUL.
\<close>

definition describes :: "stage \<Rightarrow> bool" where
  "describes st =
     (case st of
        Returns (ok, s, error) \<Rightarrow> ok \<or> error = [] \<or> c_str error \<noteq> []
      | Throws_exception what \<Rightarrow> c_str what \<noteq> []
      | Throws_other \<Rightarrow> True)"

definition well_described :: "model \<Rightarrow> bool" where
  "well_described m =
     ((case new_tokenizer m of
         Returns None \<Rightarrow> True
       | Returns (Some next_sentence) \<Rightarrow> (\<forall>t. describes (next_sentence t))
       | Throws_exception what \<Rightarrow> c_str what \<noteq> []
       | Throws_other \<Rightarrow> True)
      \<and> (\<forall>s error. describes (tag m s error))
      \<and> (\<forall>s error. describes (parse m s error)))"

text \<open>
  The character buffers of \<open>h\<close> are still there, unchanged, in \<open>h'\<close>: what a text
  field read before, it reads afterwards.
\<close>

definition chars_preserved :: "heap \<Rightarrow> heap \<Rightarrow> bool" where
  "chars_preserved h h' = (\<forall>p bs. live h p = Some (Chars bs) \<longrightarrow> live h' p = Some (Chars bs))"

text \<open>What an accessor call shows its caller: the flag and the view of the struct.\<close>

definition observe_word ::
  "(int \<times> UDPipeWord option \<times> heap) option \<Rightarrow> (int \<times> word_view option) option" where
  "observe_word res =
     (case res of
        None \<Rightarrow> None
      | Some (flag, w, h') \<Rightarrow> Some (flag, map_option (view_word h') w))"

section \<open>Example inputs\<close>

text \<open>
  A small model for concrete runs: the tokenizer finds no sentence in the empty text
  and otherwise one sentence whose only word is the whole text; tagging sets the
  universal tag, parsing the relation. \<open>example_heap ok\<close> is the heap after one
  \<^verbatim>\<open>udpipe_sentence_create\<close> under the allocation outcomes \<open>ok\<close>: when allocation 0
  succeeds, the empty record is at address 1.
\<close>

definition example_word :: "string \<Rightarrow> word" where
  "example_word t =
     \<lparr>id_w = 1, form_w = t, lemma_w = t, upostag_w = [], xpostag_w = [], feats_w = [],
      head_w = 0, deprel_w = [], deps_w = [], misc_w = []\<rparr>"

definition example_model :: model where
  "example_model =
     \<lparr>new_tokenizer = Returns (Some (\<lambda>t.
        Returns (t \<noteq> [], \<lparr>words_s = (if t = [] then [] else [example_word t])\<rparr>, []))),
      tag = (\<lambda>s error.
        Returns (True, \<lparr>words_s = map (\<lambda>w. w\<lparr>upostag_w := ''X''\<rparr>) (words_s s)\<rparr>, error)),
      parse = (\<lambda>s error.
        Returns (True, \<lparr>words_s = map (\<lambda>w. w\<lparr>deprel_w := ''root''\<rparr>) (words_s s)\<rparr>, error))\<rparr>"

definition example_heap :: "(nat \<Rightarrow> bool) \<Rightarrow> heap" where
  "example_heap ok = snd (udpipe_sentence_create \<lparr>cells = [], alloc_ok = ok\<rparr>)"

text \<open>A caller's \<^verbatim>\<open>UDPipeWord\<close> before it is handed to an accessor.\<close>

definition blank_word :: UDPipeWord where
  "blank_word =
     \<lparr>id_c = 0, form_c = nullptr, lemma_c = nullptr, upostag_c = nullptr, xpostag_c = nullptr,
      feats_c = nullptr, head_c = 0, deprel_c = nullptr, deps_c = nullptr, misc_c = nullptr\<rparr>"

text \<open>A model whose tokenizer cannot be made: \<^verbatim>\<open>new_tokenizer\<close> throws.\<close>

definition throwing_model :: "string \<Rightarrow> model" where
  "throwing_model what =
     \<lparr>new_tokenizer = Throws_exception what,
      tag = (\<lambda>s error. Returns (True, s, error)),
      parse = (\<lambda>s error. Returns (True, s, error))\<rparr>"

section \<open>Basic facts about the heap and about \<^verbatim>\<open>duplicate_string\<close>\<close>

lemma live_free: "free p h = Some h' \<Longrightarrow> live h' q = (if q = p then None else live h q)"
  by (auto simp: free_def live_def nth_list_update split: if_splits option.splits)

lemma live_malloc:
  "malloc b h = (p, h') \<Longrightarrow> 0 < q \<Longrightarrow> q \<le> length (cells h) \<Longrightarrow> live h' q = live h q"
  by (auto simp: malloc_def live_def nth_append split: if_splits)

lemma length_malloc: "malloc b h = (p, h') \<Longrightarrow> length (cells h') = Suc (length (cells h))"
  by (auto simp: malloc_def split: if_splits)

lemma malloc_result:
  "malloc b h = (p, h') \<Longrightarrow> p = (if alloc_ok h (length (cells h)) then Suc (length (cells h)) else 0)"
  by (auto simp: malloc_def split: if_splits)

lemma live_store:
  "live (store p b h) q = (if q = p \<and> 0 < p \<and> p \<le> length (cells h) then Some b else live h q)"
proof (cases "0 < p")
  case False
  then show ?thesis by (simp add: store_def live_def)
next
  case True
  show ?thesis
  proof (cases "q = p")
    case True
    with \<open>0 < p\<close> show ?thesis by (simp add: store_def live_def)
  next
    case False
    with \<open>0 < p\<close> have "p - 1 \<noteq> q - 1 \<or> q = 0" by arith
    with False \<open>0 < p\<close> show ?thesis by (auto simp add: store_def live_def)
  qed
qed

lemma length_store: "length (cells (store p b h)) = length (cells h)"
  by (simp add: store_def)

lemma live_duplicate_string:
  assumes "duplicate_string str h = (p, h')" and "0 < q" and "q \<le> length (cells h)"
  shows "live h' q = live h q"
proof (cases "str = []")
  case True
  with assms show ?thesis by (simp add: duplicate_string_def)
next
  case False
  obtain r h1 where m: "malloc (Chars (replicate (length str + 1) None)) h = (r, h1)"
    by (cases "malloc (Chars (replicate (length str + 1) None)) h")
  have r: "r = 0 \<or> r = Suc (length (cells h))"
    using malloc_result [OF m] by (simp split: if_splits)
  have "live h1 q = live h q"
    using m assms(2,3) by (rule live_malloc)
  moreover have "h' = h1 \<or> h' = store r (Chars (strcpy (replicate (length str + 1) None) str)) h1"
    using assms(1) False m by (auto simp: duplicate_string_def split: if_splits)
  ultimately show ?thesis
    using r assms(3) by (auto simp: live_store)
qed

lemma length_duplicate_string:
  "duplicate_string str h = (p, h') \<Longrightarrow> length (cells h) \<le> length (cells h')"
  by (auto simp: duplicate_string_def Let_def length_store dest: length_malloc
      split: if_splits prod.splits)

lemma live_copy_word:
  assumes "copy_word w h = (dest, h')" and "0 < q" and "q \<le> length (cells h)"
  shows "live h' q = live h q \<and> length (cells h) \<le> length (cells h')"
proof -
  obtain a1 h1 where 1: "duplicate_string (form_w w) h = (a1, h1)" by force
  obtain a2 h2 where 2: "duplicate_string (lemma_w w) h1 = (a2, h2)" by force
  obtain a3 h3 where 3: "duplicate_string (upostag_w w) h2 = (a3, h3)" by force
  obtain a4 h4 where 4: "duplicate_string (xpostag_w w) h3 = (a4, h4)" by force
  obtain a5 h5 where 5: "duplicate_string (feats_w w) h4 = (a5, h5)" by force
  obtain a6 h6 where 6: "duplicate_string (deprel_w w) h5 = (a6, h6)" by force
  obtain a7 h7 where 7: "duplicate_string (deps_w w) h6 = (a7, h7)" by force
  obtain a8 h8 where 8: "duplicate_string (misc_w w) h7 = (a8, h8)" by force
  have h': "h' = h8"
    using assms(1) 1 2 3 4 5 6 7 8 by (simp add: copy_word_def)
  note len = length_duplicate_string [OF 1] length_duplicate_string [OF 2]
    length_duplicate_string [OF 3] length_duplicate_string [OF 4]
    length_duplicate_string [OF 5] length_duplicate_string [OF 6]
    length_duplicate_string [OF 7] length_duplicate_string [OF 8]
  have "live h1 q = live h q" using 1 assms(2,3) by (rule live_duplicate_string)
  moreover have "live h2 q = live h1 q" using 2 assms(2) len assms(3) by (intro live_duplicate_string) auto
  moreover have "live h3 q = live h2 q" using 3 assms(2) len assms(3) by (intro live_duplicate_string) auto
  moreover have "live h4 q = live h3 q" using 4 assms(2) len assms(3) by (intro live_duplicate_string) auto
  moreover have "live h5 q = live h4 q" using 5 assms(2) len assms(3) by (intro live_duplicate_string) auto
  moreover have "live h6 q = live h5 q" using 6 assms(2) len assms(3) by (intro live_duplicate_string) auto
  moreover have "live h7 q = live h6 q" using 7 assms(2) len assms(3) by (intro live_duplicate_string) auto
  moreover have "live h8 q = live h7 q" using 8 assms(2) len assms(3) by (intro live_duplicate_string) auto
  ultimately show ?thesis using h' len by simp
qed

lemma live_beyond: "length (cells h) < q \<Longrightarrow> live h q = None"
  by (simp add: live_def)

lemma live_Some_bounds: "live h q = Some b \<Longrightarrow> 0 < q \<and> q \<le> length (cells h)"
  by (auto simp: live_def split: if_splits)

lemma c_string_of_copy:
  "c_string_of (map Some (takeWhile (\<lambda>c. c \<noteq> NUL) s) @ Some NUL # rest)
     = Some (takeWhile (\<lambda>c. c \<noteq> NUL) s)"
  by (induction s) simp_all

lemma c_string_of_strcpy: "c_string_of (strcpy dest src) = Some (c_str src)"
  using c_string_of_copy [of src "drop (Suc (length (c_str src))) dest"]
  by (simp add: strcpy_def c_str_def)

lemma length_strcpy: "length (strcpy (replicate (length s + 1) None) s) = length s + 1"
proof -
  have "length (c_str s) \<le> length s"
    by (simp add: c_str_def length_takeWhile_le)
  then show ?thesis by (simp add: strcpy_def)
qed

lemma c_str_no_NUL: "NUL \<notin> set s \<Longrightarrow> c_str s = s"
  by (auto simp: c_str_def takeWhile_eq_all_conv)

lemma duplicate_string_empty: "duplicate_string [] h = (0, h)"
  by (simp add: duplicate_string_def)

lemma duplicate_string_fail:
  "str \<noteq> [] \<Longrightarrow> \<not> alloc_ok h (length (cells h)) \<Longrightarrow>
     duplicate_string str h = (0, h\<lparr>cells := cells h @ [None]\<rparr>)"
  by (simp add: duplicate_string_def malloc_def)

lemma duplicate_string_ok:
  "str \<noteq> [] \<Longrightarrow> alloc_ok h (length (cells h)) \<Longrightarrow>
     duplicate_string str h =
       (Suc (length (cells h)),
        h\<lparr>cells := cells h @ [Some (Chars (strcpy (replicate (length str + 1) None) str))]\<rparr>)"
  by (simp add: duplicate_string_def malloc_def store_def)

lemma example_heap_unfold:
  "example_heap ok =
     \<lparr>cells = [if ok 0
                then Some (Sentence (Some \<lparr>words_c = nullptr, word_count_c = 0, text_c = nullptr\<rparr>))
                else None],
      alloc_ok = ok\<rparr>"
  by (simp add: example_heap_def udpipe_sentence_create_def malloc_def store_def)

section \<open>The contract of \<^verbatim>\<open>duplicate_string\<close>\<close>

text \<open>
  Claim C4, as amended. For every string, \<^verbatim>\<open>duplicate_string\<close> returns the null
  marker when the string is empty. When the string is not empty and the allocation
  succeeds, it returns a non-null address that was never handed out before, leaves every
  other block as it was, and the new block is a buffer of \<open>length + 1\<close> bytes that
  reads back, as a C string, as the input up to its first NUL byte: as the whole input
  when the input holds no NUL byte. When the string is not empty and the allocation
  fails, it returns the null marker as well.
\<close>

theorem duplicate_string_contract:
  "(str = [] \<longrightarrow> duplicate_string str h = (nullptr, h)) \<and>
   (str \<noteq> [] \<and> alloc_ok h (length (cells h)) \<longrightarrow>
      (\<exists>p h' bs. duplicate_string str h = (p, h') \<and> p \<noteq> nullptr
         \<and> length (cells h) < p \<and> live h p = None
         \<and> (\<forall>q. q \<noteq> p \<longrightarrow> live h' q = live h q)
         \<and> live h' p = Some (Chars bs) \<and> length bs = length str + 1
         \<and> read_str h' p = Content (c_str str)
         \<and> (NUL \<notin> set str \<longrightarrow> read_str h' p = Content str))) \<and>
   (str \<noteq> [] \<and> \<not> alloc_ok h (length (cells h)) \<longrightarrow>
      fst (duplicate_string str h) = nullptr)"
proof (intro conjI impI)
  assume "str = []"
  then show "duplicate_string str h = (nullptr, h)"
    by (simp add: duplicate_string_empty)
next
  assume "str \<noteq> [] \<and> \<not> alloc_ok h (length (cells h))"
  then show "fst (duplicate_string str h) = nullptr"
    by (simp add: duplicate_string_fail)
next
  assume a: "str \<noteq> [] \<and> alloc_ok h (length (cells h))"
  let ?p = "Suc (length (cells h))"
  let ?bs = "strcpy (replicate (length str + 1) None) str"
  let ?h' = "h\<lparr>cells := cells h @ [Some (Chars ?bs)]\<rparr>"
  have d: "duplicate_string str h = (?p, ?h')"
    using a by (simp add: duplicate_string_ok)
  have l: "live ?h' ?p = Some (Chars ?bs)"
    by (simp add: live_def)
  have frame: "\<forall>q. q \<noteq> ?p \<longrightarrow> live ?h' q = live h q"
    by (auto simp: live_def nth_append)
  have r: "read_str ?h' ?p = Content (c_str str)"
    unfolding read_str_def l by (simp add: c_string_of_strcpy)
  have "NUL \<notin> set str \<longrightarrow> read_str ?h' ?p = Content str"
    using r by (simp add: c_str_no_NUL)
  with d l frame r length_strcpy [of str]
  show "\<exists>p h' bs. duplicate_string str h = (p, h') \<and> p \<noteq> nullptr
         \<and> length (cells h) < p \<and> live h p = None
         \<and> (\<forall>q. q \<noteq> p \<longrightarrow> live h' q = live h q)
         \<and> live h' p = Some (Chars bs) \<and> length bs = length str + 1
         \<and> read_str h' p = Content (c_str str)
         \<and> (NUL \<notin> set str \<longrightarrow> read_str h' p = Content str)"
    by (intro exI [of _ ?p] exI [of _ ?h'] exI [of _ ?bs]) (simp add: live_beyond)
qed

text \<open>The contract at the string \<open>''The''\<close>, on the heap that holds one empty record.\<close>

theorem duplicate_string_contract_witness:
  "''The'' \<noteq> [] \<and> alloc_ok (example_heap (\<lambda>k. True)) (length (cells (example_heap (\<lambda>k. True))))
   \<and> NUL \<notin> set ''The''
   \<and> (\<exists>p h'. duplicate_string ''The'' (example_heap (\<lambda>k. True)) = (p, h') \<and> p \<noteq> nullptr
         \<and> read_str h' p = Content ''The'')"
proof -
  have 1: "''The'' \<noteq> [] \<and> alloc_ok (example_heap (\<lambda>k. True)) (length (cells (example_heap (\<lambda>k. True))))"
    by (simp add: example_heap_unfold)
  have 2: "NUL \<notin> set ''The''"
    by (simp add: NUL_def)
  from duplicate_string_contract [of "''The''" "example_heap (\<lambda>k. True)"] 1 2
  show ?thesis by blast
qed

text \<open>
  Claim C4 as stated fails for a string with an embedded NUL byte: the string
  \<open>a NUL b\<close> is not empty, the allocation succeeds, and the buffer reads back as
  \<open>''a''\<close>, which is not the input.
\<close>

theorem duplicate_string_embedded_NUL:
  "fst (duplicate_string [CHR ''a'', NUL, CHR ''b''] (example_heap (\<lambda>k. True))) = 2
   \<and> read_str (snd (duplicate_string [CHR ''a'', NUL, CHR ''b''] (example_heap (\<lambda>k. True)))) 2
       = Content ''a''
   \<and> ''a'' \<noteq> [CHR ''a'', NUL, CHR ''b'']"
  by code_simp

section \<open>Destroying an empty record\<close>

lemma destroy_loop_done:
  "live h p = Some (Sentence (Some r)) \<Longrightarrow> word_count_c r \<le> i \<Longrightarrow> destroy_loop p i h = Some h"
  by (subst destroy_loop.simps) simp

lemma destroy_zero_record:
  assumes "live h p = Some (Sentence (Some \<lparr>words_c = nullptr, word_count_c = 0, text_c = nullptr\<rparr>))"
  shows "\<exists>h'. udpipe_sentence_destroy p h = Some h'
           \<and> (\<forall>q. live h' q = (if q = p then None else live h q))"
proof -
  from assms have p: "p \<noteq> 0"
    by (auto dest: live_Some_bounds)
  have loop: "destroy_loop p 0 h = Some h"
    using assms by (rule destroy_loop_done) simp
  obtain h' where f: "free p h = Some h'"
    using assms p by (simp add: free_def)
  have "udpipe_sentence_destroy p h = Some h'"
    using assms p loop f by (simp add: udpipe_sentence_destroy_def free_def)
  with live_free [OF f] show ?thesis by simp
qed

lemma udpipe_sentence_create_ok:
  assumes "udpipe_sentence_create h = (p, h1)" and "p \<noteq> nullptr"
  shows "p = Suc (length (cells h))"
    and "live h1 p = Some (Sentence (Some \<lparr>words_c = nullptr, word_count_c = 0, text_c = nullptr\<rparr>))"
    and "\<And>q. q \<noteq> p \<Longrightarrow> live h1 q = live h q"
  using assms
  by (auto simp: udpipe_sentence_create_def malloc_def store_def live_def nth_append
      split: if_splits)

text \<open>
  Claim C5. Destroying a null record pointer returns at once and leaves the heap as it
  is. Destroying a live record whose three fields are zero does not crash, and the heap
  it leaves differs from the heap before only in that the record itself is released:
  nothing else is freed, and nothing is freed twice (a second or invalid free would be
  the result \<open>None\<close>). In particular a record obtained from
  \<^verbatim>\<open>udpipe_sentence_create\<close> and destroyed unpopulated leaves every address as it
  was before the record was created.
\<close>

theorem destroy_zero_initialized:
  "udpipe_sentence_destroy nullptr h = Some h \<and>
   (live h p = Some (Sentence (Some \<lparr>words_c = nullptr, word_count_c = 0, text_c = nullptr\<rparr>)) \<longrightarrow>
      (\<exists>h'. udpipe_sentence_destroy p h = Some h'
         \<and> (\<forall>q. live h' q = (if q = p then None else live h q)))) \<and>
   (udpipe_sentence_create h = (p, h1) \<and> p \<noteq> nullptr \<longrightarrow>
      (\<exists>h2. udpipe_sentence_destroy p h1 = Some h2 \<and> (\<forall>q. live h2 q = live h q)))"
proof (intro conjI impI)
  show "udpipe_sentence_destroy nullptr h = Some h"
    by (simp add: udpipe_sentence_destroy_def)
next
  assume "live h p = Some (Sentence (Some \<lparr>words_c = nullptr, word_count_c = 0, text_c = nullptr\<rparr>))"
  then show "\<exists>h'. udpipe_sentence_destroy p h = Some h'
      \<and> (\<forall>q. live h' q = (if q = p then None else live h q))"
    by (rule destroy_zero_record)
next
  assume a: "udpipe_sentence_create h = (p, h1) \<and> p \<noteq> nullptr"
  note c = udpipe_sentence_create_ok [of h p h1]
  from a c(2) obtain h2 where d: "udpipe_sentence_destroy p h1 = Some h2"
    and l: "\<forall>q. live h2 q = (if q = p then None else live h1 q)"
    using destroy_zero_record [of h1 p] by blast
  have "live h p = None"
    using a c(1) by (simp add: live_beyond)
  with l a c(3) have "\<forall>q. live h2 q = live h q"
    by auto
  with d show "\<exists>h2. udpipe_sentence_destroy p h1 = Some h2 \<and> (\<forall>q. live h2 q = live h q)"
    by blast
qed

text \<open>Claim C5 at the record that \<^verbatim>\<open>udpipe_sentence_create\<close> makes on the empty heap.\<close>

theorem destroy_zero_initialized_witness:
  "udpipe_sentence_create \<lparr>cells = [], alloc_ok = \<lambda>k. True\<rparr> = (1, example_heap (\<lambda>k. True))
   \<and> live (example_heap (\<lambda>k. True)) 1
       = Some (Sentence (Some \<lparr>words_c = nullptr, word_count_c = 0, text_c = nullptr\<rparr>))
   \<and> (\<exists>h2. udpipe_sentence_destroy 1 (example_heap (\<lambda>k. True)) = Some h2
         \<and> (\<forall>q. live h2 q = live \<lparr>cells = [], alloc_ok = \<lambda>k. True\<rparr> q))"
proof -
  have 1: "udpipe_sentence_create \<lparr>cells = [], alloc_ok = \<lambda>k. True\<rparr> = (1, example_heap (\<lambda>k. True))"
    by (simp add: example_heap_unfold udpipe_sentence_create_def malloc_def store_def)
  have 2: "live (example_heap (\<lambda>k. True)) 1
       = Some (Sentence (Some \<lparr>words_c = nullptr, word_count_c = 0, text_c = nullptr\<rparr>))"
    by (simp add: example_heap_unfold live_def)
  from destroy_zero_initialized
    [of "\<lparr>cells = [], alloc_ok = \<lambda>k. True\<rparr>" 1 "example_heap (\<lambda>k. True)"] 1 2
  show ?thesis by simp
qed

section \<open>The bounds check of \<^verbatim>\<open>udpipe_sentence_get_word\<close>\<close>

text \<open>
  Claim C6. For an internal sentence of \<open>N\<close> words and an index \<open>i \<ge> N\<close>,
  \<^verbatim>\<open>udpipe_sentence_get_word\<close> returns 0, the caller's struct and the heap are what
  they were, and no access outside the vector is made (that would be the result
  \<open>None\<close>). For \<open>i < N\<close> and a non-null output pointer it returns 1.
\<close>

theorem get_word_bounds:
  "(length (words_s s) \<le> i \<longrightarrow>
      udpipe_sentence_get_word (Some s) i word h = Some (0, word, h)) \<and>
   (i < length (words_s s) \<and> word \<noteq> None \<longrightarrow>
      (\<exists>w h'. udpipe_sentence_get_word (Some s) i word h = Some (1, Some w, h')))"
  by (auto simp: udpipe_sentence_get_word_def at_def split: prod.splits)

text \<open>Claim C6 on a sentence of one word, at the indices 1 and 0.\<close>

theorem get_word_bounds_witness:
  "length (words_s \<lparr>words_s = [example_word ''a'']\<rparr>) \<le> 1
   \<and> udpipe_sentence_get_word (Some \<lparr>words_s = [example_word ''a'']\<rparr>) 1
        (Some blank_word) (example_heap (\<lambda>k. True))
      = Some (0, Some blank_word, example_heap (\<lambda>k. True))
   \<and> 0 < length (words_s \<lparr>words_s = [example_word ''a'']\<rparr>)
   \<and> (\<exists>w h'. udpipe_sentence_get_word (Some \<lparr>words_s = [example_word ''a'']\<rparr>) 0
        (Some blank_word) (example_heap (\<lambda>k. True))
      = Some (1, Some w, h'))"
  using get_word_bounds [of "\<lparr>words_s = [example_word ''a'']\<rparr>" 1 "Some blank_word" "example_heap (\<lambda>k. True)"]
    get_word_bounds [of "\<lparr>words_s = [example_word ''a'']\<rparr>" 0 "Some blank_word" "example_heap (\<lambda>k. True)"]
  by simp

section \<open>The argument check of \<^verbatim>\<open>udpipe_process_text\<close>\<close>

lemma report_error_result:
  "\<exists>e h'. report_error error_msg msg h = Some (0, e, h')
     \<and> (\<forall>q. q \<le> length (cells h) \<longrightarrow> live h' q = live h q)
     \<and> length (cells h') \<le> Suc (length (cells h))
     \<and> alloc_ok h' = alloc_ok h
     \<and> (error_msg = None \<longrightarrow> e = None \<and> h' = h)
     \<and> (error_msg \<noteq> None \<and> msg \<noteq> [] \<and> alloc_ok h (length (cells h)) \<longrightarrow>
          e = Some (Suc (length (cells h))) \<and> length (cells h') = Suc (length (cells h))
          \<and> read_str h' (Suc (length (cells h))) = Content (c_str msg))"
proof (cases error_msg)
  case None
  then show ?thesis by (simp add: report_error_def)
next
  case (Some old)
  show ?thesis
  proof (cases "msg = []")
    case True
    with Some show ?thesis by (simp add: report_error_def duplicate_string_empty)
  next
    case False
    show ?thesis
    proof (cases "alloc_ok h (length (cells h))")
      case True
      have "live (h\<lparr>cells := cells h @ [Some (Chars (strcpy (replicate (length msg + 1) None) msg))]\<rparr>)
              (Suc (length (cells h)))
            = Some (Chars (strcpy (replicate (length msg + 1) None) msg))"
        by (simp add: live_def)
      then have "read_str (h\<lparr>cells := cells h @ [Some (Chars (strcpy (replicate (length msg + 1) None) msg))]\<rparr>)
              (Suc (length (cells h))) = Content (c_str msg)"
        unfolding read_str_def by (simp add: c_string_of_strcpy del: replicate_Suc)
      with Some False True show ?thesis
        by (auto simp: report_error_def duplicate_string_ok live_def nth_append simp del: replicate_Suc)
    next
      case f: False
      with Some False show ?thesis
        by (auto simp: report_error_def duplicate_string_fail live_def nth_append)
    qed
  qed
qed

lemma c_str_Invalid_parameters: "c_str ''Invalid parameters'' = ''Invalid parameters''"
  by (simp add: c_str_def NUL_def)

text \<open>
  Claim C3, as amended. A call with a null model handle or a null input text fails at
  once: it returns 0 and is exactly the error path with the description
  \<open>''Invalid parameters''\<close>, whatever the model would have done. It changes no block
  that existed before and makes at most one allocation, the copy of the description:
  none when \<^verbatim>\<open>error_msg\<close> is null, and when \<^verbatim>\<open>error_msg\<close> is not null and the
  allocation succeeds, \<^verbatim>\<open>*error_msg\<close> is a fresh buffer that reads
  \<open>''Invalid parameters''\<close>.
\<close>

theorem process_null_model_or_text:
  "model_ptr = None \<or> text = None \<Longrightarrow>
     \<exists>e h'. udpipe_process_text model_ptr text result error_msg h = Some (0, e, h')
       \<and> report_error error_msg ''Invalid parameters'' h = Some (0, e, h')
       \<and> (\<forall>q. q \<le> length (cells h) \<longrightarrow> live h' q = live h q)
       \<and> length (cells h') \<le> Suc (length (cells h))
       \<and> (error_msg = None \<longrightarrow> e = None \<and> h' = h)
       \<and> (error_msg \<noteq> None \<and> alloc_ok h (length (cells h)) \<longrightarrow>
            (\<exists>p. e = Some p \<and> p \<noteq> nullptr \<and> live h p = None
               \<and> read_str h' p = Content ''Invalid parameters''))"
proof -
  assume a: "model_ptr = None \<or> text = None"
  then have p: "udpipe_process_text model_ptr text result error_msg h
      = report_error error_msg ''Invalid parameters'' h"
    by (auto simp: udpipe_process_text_def split: option.splits)
  from report_error_result [of error_msg "''Invalid parameters''" h] p
  show ?thesis
    by (auto simp: c_str_Invalid_parameters live_beyond)
qed

text \<open>Claim C3 at a call without a model, on the heap that holds one empty record.\<close>

theorem process_null_model_or_text_witness:
  "observe 1 (udpipe_process_text None (Some ''a'') 1 (Some nullptr) (example_heap (\<lambda>k. True)))
     = Some (0, Content ''Invalid parameters'',
             Some \<lparr>word_count_v = 0, words_v = [], text_v = Absent\<rparr>)
   \<and> (\<exists>e h'. udpipe_process_text None (Some ''a'') 1 (Some nullptr) (example_heap (\<lambda>k. True))
          = Some (0, e, h')
        \<and> length (cells h') \<le> Suc (length (cells (example_heap (\<lambda>k. True)))))"
proof -
  have "observe 1 (udpipe_process_text None (Some ''a'') 1 (Some nullptr) (example_heap (\<lambda>k. True)))
     = Some (0, Content ''Invalid parameters'',
             Some \<lparr>word_count_v = 0, words_v = [], text_v = Absent\<rparr>)"
    by code_simp
  with process_null_model_or_text [of None "Some ''a''" 1 "Some nullptr" "example_heap (\<lambda>k. True)"]
  show ?thesis by auto
qed

text \<open>
  Claim C3 as stated fails for the empty text: a non-null pointer to an empty string
  passes the check of line 58 and reaches the tokenizer. With a model that finds no
  sentence in the empty text, the call fails with the description of that stage, not
  with the one for invalid arguments.
\<close>

theorem process_empty_text:
  "observe 1 (udpipe_process_text (Some example_model) (Some []) 1 (Some nullptr)
      (example_heap (\<lambda>k. True)))
     = Some (0, Content ''No sentence found'',
             Some \<lparr>word_count_v = 0, words_v = [], text_v = Absent\<rparr>)
   \<and> ''No sentence found'' \<noteq> ''Invalid parameters''"
  by code_simp

text \<open>
  Claim C10. A call with a null result pointer returns 0 and is exactly the error path
  with the description \<open>''Invalid parameters''\<close>, whatever the model and the text are:
  the model is not called, no block that existed before is changed, and the allocation
  outcomes still to come are the same. The only effect is the error description: none
  when \<^verbatim>\<open>error_msg\<close> is null, and when \<^verbatim>\<open>error_msg\<close> is not null and the
  allocation succeeds, \<^verbatim>\<open>*error_msg\<close> is a fresh buffer that reads
  \<open>''Invalid parameters''\<close>.
\<close>

theorem process_null_result:
  "result = nullptr \<Longrightarrow>
     \<exists>e h'. udpipe_process_text model_ptr text result error_msg h = Some (0, e, h')
       \<and> report_error error_msg ''Invalid parameters'' h = Some (0, e, h')
       \<and> (\<forall>q. q \<le> length (cells h) \<longrightarrow> live h' q = live h q)
       \<and> alloc_ok h' = alloc_ok h
       \<and> (error_msg = None \<longrightarrow> e = None \<and> h' = h)
       \<and> (error_msg \<noteq> None \<and> alloc_ok h (length (cells h)) \<longrightarrow>
            (\<exists>p. e = Some p \<and> p \<noteq> nullptr \<and> live h p = None
               \<and> read_str h' p = Content ''Invalid parameters''))"
proof -
  assume a: "result = nullptr"
  then have p: "udpipe_process_text model_ptr text result error_msg h
      = report_error error_msg ''Invalid parameters'' h"
    by (auto simp: udpipe_process_text_def split: option.splits)
  from report_error_result [of error_msg "''Invalid parameters''" h] p
  show ?thesis
    by (auto simp: c_str_Invalid_parameters live_beyond)
qed

text \<open>Claim C10 at a call with a model and a text but no record.\<close>

theorem process_null_result_witness:
  "observe nullptr
      (udpipe_process_text (Some example_model) (Some ''a'') nullptr (Some nullptr)
         (example_heap (\<lambda>k. True)))
     = Some (0, Content ''Invalid parameters'', None)
   \<and> (\<exists>e h'. udpipe_process_text (Some example_model) (Some ''a'') nullptr (Some nullptr)
           (example_heap (\<lambda>k. True)) = Some (0, e, h')
        \<and> live h' 1 = live (example_heap (\<lambda>k. True)) 1)"
proof -
  have "observe nullptr
      (udpipe_process_text (Some example_model) (Some ''a'') nullptr (Some nullptr)
         (example_heap (\<lambda>k. True)))
     = Some (0, Content ''Invalid parameters'', None)"
    by code_simp
  moreover have "1 \<le> length (cells (example_heap (\<lambda>k. True)))"
    by (simp add: example_heap_unfold)
  ultimately show ?thesis
    using process_null_result [of nullptr "Some example_model" "Some ''a''" "Some nullptr"
        "example_heap (\<lambda>k. True)"]
    by auto
qed

section \<open>Allocation failures during the conversion\<close>

text \<open>
  Claim C1 fails on the code. The example model turns the text \<open>''a''\<close> into one
  word whose form is \<open>''a''\<close>. Allocation 0 made the record, allocation 1 is the word
  array, allocations 2 to 5 are the non-empty strings of the word and allocation 6 is
  the copy of the text. When allocation 2 fails, the call returns 1 and the record holds
  a word without form; when allocation 6 fails, the call returns 1 and the record has no
  text. No error is reported in either run.
\<close>

theorem process_unchecked_copies:
  "parsed_sentence example_model ''a''
     = Some \<lparr>words_s = [\<lparr>id_w = 1, form_w = ''a'', lemma_w = ''a'', upostag_w = ''X'',
                           xpostag_w = [], feats_w = [], head_w = 0, deprel_w = ''root'',
                           deps_w = [], misc_w = []\<rparr>]\<rparr>
   \<and> observe 1 (udpipe_process_text (Some example_model) (Some ''a'') 1 (Some nullptr)
        (example_heap (\<lambda>k. k \<noteq> 2)))
     = Some (1, Absent,
         Some \<lparr>word_count_v = 1,
               words_v = [Some \<lparr>id_v = 1, form_v = Absent, lemma_v = Content ''a'',
                                upostag_v = Content ''X'', xpostag_v = Absent, feats_v = Absent,
                                head_v = 0, deprel_v = Content ''root'', deps_v = Absent,
                                misc_v = Absent\<rparr>],
               text_v = Content ''a''\<rparr>)
   \<and> observe 1 (udpipe_process_text (Some example_model) (Some ''a'') 1 (Some nullptr)
        (example_heap (\<lambda>k. k \<noteq> 6)))
     = Some (1, Absent,
         Some \<lparr>word_count_v = 1,
               words_v = [Some \<lparr>id_v = 1, form_v = Content ''a'', lemma_v = Content ''a'',
                                upostag_v = Content ''X'', xpostag_v = Absent, feats_v = Absent,
                                head_v = 0, deprel_v = Content ''root'', deps_v = Absent,
                                misc_v = Absent\<rparr>],
               text_v = Absent\<rparr>)"
  by code_simp

text \<open>
  Claim C2 fails on the code. When the allocation of the word array fails, the call
  returns 0 and leaves a record with \<^verbatim>\<open>word_count = 1\<close> and \<^verbatim>\<open>words = NULL\<close>: the
  invariant, which held before the call, no longer holds, and
  \<^verbatim>\<open>udpipe_sentence_destroy\<close> on that record reads through the null pointer.
\<close>

theorem process_failed_array_allocation:
  "sentence_invariant (example_heap (\<lambda>k. k \<noteq> 1)) 1
   \<and> observe 1 (udpipe_process_text (Some example_model) (Some ''a'') 1 (Some nullptr)
        (example_heap (\<lambda>k. k \<noteq> 1)))
     = Some (0, Content ''Memory allocation failed'',
         Some \<lparr>word_count_v = 1, words_v = [None], text_v = Absent\<rparr>)
   \<and> (case final_heap (udpipe_process_text (Some example_model) (Some ''a'') 1 (Some nullptr)
              (example_heap (\<lambda>k. k \<noteq> 1))) of
         None \<Rightarrow> False
       | Some h' \<Rightarrow>
           live h' 1 = Some (Sentence (Some \<lparr>words_c = nullptr, word_count_c = 1, text_c = nullptr\<rparr>))
           \<and> \<not> sentence_invariant h' 1
           \<and> udpipe_sentence_destroy 1 h' = None)"
  by code_simp

section \<open>The conversion when no allocation fails\<close>

lemma chars_preserved_refl: "chars_preserved h h"
  by (simp add: chars_preserved_def)

lemma chars_preserved_trans:
  "chars_preserved h1 h2 \<Longrightarrow> chars_preserved h2 h3 \<Longrightarrow> chars_preserved h1 h3"
  by (simp add: chars_preserved_def)

lemma chars_preserved_store:
  assumes "\<And>bs. live h p \<noteq> Some (Chars bs)"
  shows "chars_preserved h (store p b h)"
  using assms by (auto simp: chars_preserved_def live_store)

lemma read_str_preserved:
  assumes "chars_preserved h h'" and "read_str h p = transfer x"
  shows "read_str h' p = transfer x"
proof (cases "p = 0")
  case True
  with assms(2) show ?thesis by (simp add: read_str_def)
next
  case False
  with assms(2) obtain bs where "live h p = Some (Chars bs)"
    by (auto simp: read_str_def transfer_def split: option.splits block.splits if_splits)
  with assms(1) have "live h' p = live h p"
    by (simp add: chars_preserved_def)
  then have "read_str h' p = read_str h p"
    by (simp add: read_str_def)
  with assms(2) show ?thesis by simp
qed

lemma duplicate_string_alloc_ok:
  "duplicate_string str h = (p, h') \<Longrightarrow> alloc_ok h' = alloc_ok h"
  by (auto simp: duplicate_string_def malloc_def store_def split: if_splits)

lemma duplicate_string_preserves:
  assumes "duplicate_string str h = (p, h')"
  shows "chars_preserved h h'"
  unfolding chars_preserved_def
proof (intro allI impI)
  fix q bs assume l: "live h q = Some (Chars bs)"
  then have "0 < q \<and> q \<le> length (cells h)" by (rule live_Some_bounds)
  with live_duplicate_string [OF assms, of q] l show "live h' q = Some (Chars bs)" by simp
qed

lemma duplicate_string_read:
  assumes "str \<noteq> []" and "alloc_ok h (length (cells h))"
  shows "read_str (snd (duplicate_string str h)) (fst (duplicate_string str h)) = Content (c_str str)"
proof -
  let ?bs = "strcpy (replicate (length str + 1) None) str"
  let ?h' = "h\<lparr>cells := cells h @ [Some (Chars ?bs)]\<rparr>"
  have "live ?h' (Suc (length (cells h))) = Some (Chars ?bs)"
    by (simp add: live_def)
  then have "read_str ?h' (Suc (length (cells h))) = Content (c_str str)"
    unfolding read_str_def by (simp add: c_string_of_strcpy del: replicate_Suc)
  then show ?thesis
    using assms by (simp add: duplicate_string_ok del: replicate_Suc)
qed

lemma no_fail_later:
  "no_fail h \<Longrightarrow> alloc_ok h' = alloc_ok h \<Longrightarrow> length (cells h) \<le> length (cells h') \<Longrightarrow> no_fail h'"
  by (simp add: no_fail_def)

lemma duplicate_string_no_fail:
  assumes "no_fail h" and "duplicate_string str h = (p, h')"
  shows "no_fail h'" and "read_str h' p = transfer str"
proof -
  show "no_fail h'"
    using assms(1) duplicate_string_alloc_ok [OF assms(2)] length_duplicate_string [OF assms(2)]
    by (rule no_fail_later)
  show "read_str h' p = transfer str"
  proof (cases "str = []")
    case True
    with assms(2) show ?thesis
      by (simp add: duplicate_string_empty read_str_def transfer_def)
  next
    case False
    from assms(1) have ok: "alloc_ok h (length (cells h))"
      by (simp add: no_fail_def)
    from duplicate_string_read [OF False ok] assms(2) False show ?thesis
      by (simp add: transfer_def)
  qed
qed

lemma copy_word_no_fail:
  assumes nf: "no_fail h" and c: "copy_word w h = (cw, h')"
  shows "no_fail h'" and "view_word h' cw = transfer_word w"
proof -
  obtain a1 h1 where 1: "duplicate_string (form_w w) h = (a1, h1)" by force
  obtain a2 h2 where 2: "duplicate_string (lemma_w w) h1 = (a2, h2)" by force
  obtain a3 h3 where 3: "duplicate_string (upostag_w w) h2 = (a3, h3)" by force
  obtain a4 h4 where 4: "duplicate_string (xpostag_w w) h3 = (a4, h4)" by force
  obtain a5 h5 where 5: "duplicate_string (feats_w w) h4 = (a5, h5)" by force
  obtain a6 h6 where 6: "duplicate_string (deprel_w w) h5 = (a6, h6)" by force
  obtain a7 h7 where 7: "duplicate_string (deps_w w) h6 = (a7, h7)" by force
  obtain a8 h8 where 8: "duplicate_string (misc_w w) h7 = (a8, h8)" by force
  have cw: "cw = \<lparr>id_c = id_w w, form_c = a1, lemma_c = a2, upostag_c = a3, xpostag_c = a4,
      feats_c = a5, head_c = head_w w, deprel_c = a6, deps_c = a7, misc_c = a8\<rparr>"
    and h': "h' = h8"
    using c 1 2 3 4 5 6 7 8 by (simp_all add: copy_word_def)
  note n1 = duplicate_string_no_fail [OF nf 1]
  note n2 = duplicate_string_no_fail [OF n1(1) 2]
  note n3 = duplicate_string_no_fail [OF n2(1) 3]
  note n4 = duplicate_string_no_fail [OF n3(1) 4]
  note n5 = duplicate_string_no_fail [OF n4(1) 5]
  note n6 = duplicate_string_no_fail [OF n5(1) 6]
  note n7 = duplicate_string_no_fail [OF n6(1) 7]
  note n8 = duplicate_string_no_fail [OF n7(1) 8]
  show "no_fail h'" using n8(1) h' by simp
  note p78 = duplicate_string_preserves [OF 8]
  note p68 = chars_preserved_trans [OF duplicate_string_preserves [OF 7] p78]
  note p58 = chars_preserved_trans [OF duplicate_string_preserves [OF 6] p68]
  note p48 = chars_preserved_trans [OF duplicate_string_preserves [OF 5] p58]
  note p38 = chars_preserved_trans [OF duplicate_string_preserves [OF 4] p48]
  note p28 = chars_preserved_trans [OF duplicate_string_preserves [OF 3] p38]
  note p18 = chars_preserved_trans [OF duplicate_string_preserves [OF 2] p28]
  have "read_str h8 a1 = transfer (form_w w)" using p18 n1(2) by (rule read_str_preserved)
  moreover have "read_str h8 a2 = transfer (lemma_w w)" using p28 n2(2) by (rule read_str_preserved)
  moreover have "read_str h8 a3 = transfer (upostag_w w)" using p38 n3(2) by (rule read_str_preserved)
  moreover have "read_str h8 a4 = transfer (xpostag_w w)" using p48 n4(2) by (rule read_str_preserved)
  moreover have "read_str h8 a5 = transfer (feats_w w)" using p58 n5(2) by (rule read_str_preserved)
  moreover have "read_str h8 a6 = transfer (deprel_w w)" using p68 n6(2) by (rule read_str_preserved)
  moreover have "read_str h8 a7 = transfer (deps_w w)" using p78 n7(2) by (rule read_str_preserved)
  moreover note n8(2)
  ultimately show "view_word h' cw = transfer_word w"
    unfolding cw h' by (simp add: view_word_def transfer_word_def)
qed

lemma copy_word_preserves:
  assumes "copy_word w h = (cw, h')"
  shows "chars_preserved h h'"
  unfolding chars_preserved_def
proof (intro allI impI)
  fix q bs assume l: "live h q = Some (Chars bs)"
  then have "0 < q" "q \<le> length (cells h)" by (auto dest: live_Some_bounds)
  with live_copy_word [OF assms, of q] l show "live h' q = Some (Chars bs)" by simp
qed

lemma view_word_preserved:
  assumes "chars_preserved h h'" and "view_word h cw = transfer_word w"
  shows "view_word h' cw = transfer_word w"
proof -
  from assms(2) have
    "id_c cw = id_w w" "head_c cw = head_w w"
    "read_str h (form_c cw) = transfer (form_w w)"
    "read_str h (lemma_c cw) = transfer (lemma_w w)"
    "read_str h (upostag_c cw) = transfer (upostag_w w)"
    "read_str h (xpostag_c cw) = transfer (xpostag_w w)"
    "read_str h (feats_c cw) = transfer (feats_w w)"
    "read_str h (deprel_c cw) = transfer (deprel_w w)"
    "read_str h (deps_c cw) = transfer (deps_w w)"
    "read_str h (misc_c cw) = transfer (misc_w w)"
    by (simp_all add: view_word_def transfer_word_def)
  then show ?thesis
    using read_str_preserved [OF assms(1)]
    by (simp add: view_word_def transfer_word_def)
qed

lemma get_word_is_copy_word:
  "i < length (words_s s) \<Longrightarrow>
     udpipe_sentence_get_word (Some s) i (Some w0) h =
       (case copy_word (words_s s ! i) h of (cw, h') \<Rightarrow> Some (1, Some cw, h'))"
  by (simp add: udpipe_sentence_get_word_def copy_word_def at_def split: prod.splits)

lemma extract_words_done:
  "live h result = Some (Sentence (Some r)) \<Longrightarrow> word_count_c r \<le> i \<Longrightarrow>
     extract_words s result i h = Some h"
  by (subst extract_words.simps) simp

lemma extract_words_step:
  assumes "live h result = Some (Sentence (Some r))" and "i < word_count_c r"
    and "i < length (words_s s)" and "copy_word (words_s s ! i) h = (dest, h1)"
    and "live h1 (words_c r) = Some (Words ws)" and "i < length ws"
  shows "extract_words s result i h =
     extract_words s result (Suc i) (store (words_c r) (Words (ws[i := Some dest])) h1)"
  using assms by (subst extract_words.simps) (simp add: at_def)

lemma extract_words_no_fail:
  assumes "n - i = k"
    and "live h result = Some (Sentence (Some r))"
    and "word_count_c r = n" and "length (words_s s) = n"
    and "live h (words_c r) = Some (Words ws)" and "length ws = n"
    and "no_fail h"
    and "\<forall>j<i. \<exists>cw. ws ! j = Some cw \<and> view_word h cw = transfer_word (words_s s ! j)"
  shows "\<exists>h' ws'. extract_words s result i h = Some h' \<and> no_fail h'
           \<and> chars_preserved h h'
           \<and> live h' result = Some (Sentence (Some r))
           \<and> live h' (words_c r) = Some (Words ws') \<and> length ws' = n
           \<and> (\<forall>j<n. \<exists>cw. ws' ! j = Some cw \<and> view_word h' cw = transfer_word (words_s s ! j))"
  using assms
proof (induction k arbitrary: i h ws)
  case 0
  then have "n \<le> i" by simp
  with 0 have "extract_words s result i h = Some h"
    by (intro extract_words_done [where r = r]) simp_all
  moreover have "\<forall>j<n. \<exists>cw. ws ! j = Some cw \<and> view_word h cw = transfer_word (words_s s ! j)"
    using 0 \<open>n \<le> i\<close> by auto
  ultimately show ?case
    using 0 by (auto simp: chars_preserved_refl)
next
  case (Suc k)
  then have i: "i < n" by simp
  let ?w = "words_s s ! i"
  obtain dest h1 where c: "copy_word ?w h = (dest, h1)" by force
  have wp: "0 < words_c r" "words_c r \<le> length (cells h)"
    and rp: "0 < result" "result \<le> length (cells h)"
    using Suc.prems by (auto dest: live_Some_bounds)
  have l1: "live h1 (words_c r) = Some (Words ws)" "live h1 result = Some (Sentence (Some r))"
    using live_copy_word [OF c wp] live_copy_word [OF c rp] Suc.prems by simp_all
  let ?ws = "ws[i := Some dest]"
  let ?h2 = "store (words_c r) (Words ?ws) h1"
  have step: "extract_words s result i h = extract_words s result (Suc i) ?h2"
    using Suc.prems i c l1 by (intro extract_words_step) simp_all
  have ne: "words_c r \<noteq> result"
    using l1 by auto
  have p01: "chars_preserved h h1"
    using c by (rule copy_word_preserves)
  have p12: "chars_preserved h1 ?h2"
    using l1 by (intro chars_preserved_store) simp
  have p02: "chars_preserved h ?h2"
    using p01 p12 by (rule chars_preserved_trans)
  have nf1: "no_fail h1" and v1: "view_word h1 dest = transfer_word ?w"
    using copy_word_no_fail [OF \<open>no_fail h\<close> c] by simp_all
  have nf2: "no_fail ?h2"
    using nf1 by (simp add: no_fail_def store_def)
  have l2: "live ?h2 result = Some (Sentence (Some r))"
    "live ?h2 (words_c r) = Some (Words ?ws)"
    using l1 ne by (auto simp: live_store dest: live_Some_bounds)
  have inv: "\<forall>j<Suc i. \<exists>cw. ?ws ! j = Some cw \<and> view_word ?h2 cw = transfer_word (words_s s ! j)"
  proof (intro allI impI)
    fix j assume "j < Suc i"
    show "\<exists>cw. ?ws ! j = Some cw \<and> view_word ?h2 cw = transfer_word (words_s s ! j)"
    proof (cases "j = i")
      case True
      have "view_word ?h2 dest = transfer_word ?w"
        using p12 v1 by (rule view_word_preserved)
      with True i Suc.prems show ?thesis by simp
    next
      case False
      with \<open>j < Suc i\<close> have "j < i" by simp
      with Suc.prems obtain cw where "ws ! j = Some cw"
        "view_word h cw = transfer_word (words_s s ! j)" by blast
      with False view_word_preserved [OF p02] show ?thesis by simp
    qed
  qed
  have "n - Suc i = k" using Suc.prems by simp
  from Suc.IH [OF this l2(1) \<open>word_count_c r = n\<close> \<open>length (words_s s) = n\<close> l2(2) _ nf2 inv]
  obtain h' ws' where r: "extract_words s result (Suc i) ?h2 = Some h'" "no_fail h'"
    "chars_preserved ?h2 h'"
    "live h' result = Some (Sentence (Some r))"
    "live h' (words_c r) = Some (Words ws')" "length ws' = n"
    "\<forall>j<n. \<exists>cw. ws' ! j = Some cw \<and> view_word h' cw = transfer_word (words_s s ! j)"
    using Suc.prems by auto
  from p02 r(3) have "chars_preserved h h'" by (rule chars_preserved_trans)
  with step r show ?case by auto
qed

lemma attach_text_no_fail:
  assumes l: "live h result = Some (Sentence (Some r))" and nf: "no_fail h"
  shows "\<exists>h' tp. attach_text t result em h = Some (1, em, h')
           \<and> live h' result = Some (Sentence (Some (r\<lparr>text_c := tp\<rparr>)))
           \<and> read_str h' tp = transfer t \<and> chars_preserved h h' \<and> no_fail h'
           \<and> (\<forall>q. q \<noteq> result \<and> 0 < q \<and> q \<le> length (cells h) \<longrightarrow> live h' q = live h q)"
proof -
  obtain tp h1 where d: "duplicate_string t h = (tp, h1)" by force
  have rp: "0 < result" "result \<le> length (cells h)"
    using l by (auto dest: live_Some_bounds)
  have l1: "live h1 result = Some (Sentence (Some r))"
    using live_duplicate_string [OF d rp] l by simp
  let ?h' = "store result (Sentence (Some (r\<lparr>text_c := tp\<rparr>))) h1"
  have a: "attach_text t result em h = Some (1, em, ?h')"
    using d l1 by (simp add: attach_text_def)
  have p1: "chars_preserved h h1"
    using d by (rule duplicate_string_preserves)
  have p2: "chars_preserved h1 ?h'"
    using l1 by (intro chars_preserved_store) simp
  have "read_str ?h' tp = transfer t"
    using p2 duplicate_string_no_fail(2) [OF nf d] by (rule read_str_preserved)
  moreover have "no_fail ?h'"
    using duplicate_string_no_fail(1) [OF nf d] by (simp add: no_fail_def store_def)
  moreover have "live ?h' result = Some (Sentence (Some (r\<lparr>text_c := tp\<rparr>)))"
    using l1 by (auto simp: live_store dest: live_Some_bounds)
  moreover have "\<forall>q. q \<noteq> result \<and> 0 < q \<and> q \<le> length (cells h) \<longrightarrow> live ?h' q = live h q"
    using live_duplicate_string [OF d] by (simp add: live_store)
  ultimately show ?thesis
    using a chars_preserved_trans [OF p1 p2] by blast
qed

lemma map_index_nth: "map (\<lambda>i. f (xs ! i)) [0..<length xs] = map f xs"
  by (rule nth_equalityI) simp_all

lemma view_sentence_converted:
  assumes "live h result = Some (Sentence (Some r))"
    and "word_count_c r = length (words_s s)"
    and "live h (words_c r) = Some (Words ws)" and "length ws = length (words_s s)"
    and "\<forall>j<length (words_s s). \<exists>cw. ws ! j = Some cw
           \<and> view_word h cw = transfer_word (words_s s ! j)"
    and "read_str h (text_c r) = transfer t"
  shows "view_sentence h result = Some (transfer_sentence s t)"
proof -
  have "map (\<lambda>i. map_option (view_word h) (word_at h (words_c r) i)) [0..<length (words_s s)]
      = map (\<lambda>i. Some (transfer_word (words_s s ! i))) [0..<length (words_s s)]"
  proof (rule map_cong [OF refl])
    fix i assume "i \<in> set [0..<length (words_s s)]"
    then have "i < length (words_s s)" by simp
    with assms(5) obtain cw where "ws ! i = Some cw"
      "view_word h cw = transfer_word (words_s s ! i)" by blast
    with assms(3,4) \<open>i < length (words_s s)\<close>
    show "map_option (view_word h) (word_at h (words_c r) i) = Some (transfer_word (words_s s ! i))"
      by (simp add: word_at_def)
  qed
  also have "\<dots> = map (\<lambda>w. Some (transfer_word w)) (words_s s)"
    by (rule map_index_nth)
  finally show ?thesis
    using assms(1,2,6) by (simp add: view_sentence_def transfer_sentence_def)
qed

lemma extract_results_no_fail:
  assumes l: "live h result = Some (Sentence (Some r0))" and nf: "no_fail h"
  shows "\<exists>h'. extract_results s t result em h = Some (1, em, h')
           \<and> view_sentence h' result = Some (transfer_sentence s t)
           \<and> sentence_invariant h' result = (words_s s = [] \<longrightarrow> words_c r0 = nullptr)"
proof -
  let ?n = "length (words_s s)"
  let ?h1 = "store result (Sentence (Some (r0\<lparr>word_count_c := ?n\<rparr>))) h"
  have rp: "0 < result" "result \<le> length (cells h)"
    using l by (auto dest: live_Some_bounds)
  have l1: "live ?h1 result = Some (Sentence (Some (r0\<lparr>word_count_c := ?n\<rparr>)))"
    using rp by (simp add: live_store)
  have nf1: "no_fail ?h1"
    using nf by (simp add: no_fail_def store_def)
  show ?thesis
  proof (cases "?n = 0")
    case True
    from attach_text_no_fail [OF l1 nf1, of t em]
    obtain h' tp where a: "attach_text t result em ?h1 = Some (1, em, h')"
      "live h' result = Some (Sentence (Some (r0\<lparr>word_count_c := ?n, text_c := tp\<rparr>)))"
      "read_str h' tp = transfer t"
      by auto
    have "extract_results s t result em h = Some (1, em, h')"
      using l True a(1) by (simp add: extract_results_def)
    moreover have "view_sentence h' result = Some (transfer_sentence s t)"
      using a(2,3) True by (simp add: view_sentence_def transfer_sentence_def)
    moreover have "sentence_invariant h' result = (words_s s = [] \<longrightarrow> words_c r0 = nullptr)"
      using a(2) True by (simp add: sentence_invariant_def)
    ultimately show ?thesis by blast
  next
    case False
    let ?wp = "Suc (length (cells ?h1))"
    let ?h2 = "?h1\<lparr>cells := cells ?h1 @ [Some (Words (replicate ?n None))]\<rparr>"
    let ?r = "r0\<lparr>word_count_c := ?n, words_c := ?wp\<rparr>"
    let ?h3 = "store result (Sentence (Some ?r)) ?h2"
    have ok: "alloc_ok ?h1 (length (cells ?h1))"
      using nf1 by (simp add: no_fail_def)
    then have m: "malloc (Words (replicate ?n None)) ?h1 = (?wp, ?h2)"
      by (simp add: malloc_def)
    have len1: "length (cells ?h1) = length (cells h)"
      by (simp add: length_store)
    have l3: "live ?h3 result = Some (Sentence (Some ?r))"
      using rp len1 by (simp add: live_store)
    have w3: "live ?h3 (words_c ?r) = Some (Words (replicate ?n None))"
      using rp len1 by (simp add: live_store) (simp add: live_def nth_append)
    have nf3: "no_fail ?h3"
      using nf by (simp add: no_fail_def store_def)
    from extract_words_no_fail [where k = ?n and n = ?n and i = 0 and s = s
        and ws = "replicate ?n None", OF _ l3 _ _ w3 _ nf3]
    obtain h4 ws' where e: "extract_words s result 0 ?h3 = Some h4" "no_fail h4"
      "live h4 result = Some (Sentence (Some ?r))"
      "live h4 ?wp = Some (Words ws')" "length ws' = ?n"
      "\<forall>j<?n. \<exists>cw. ws' ! j = Some cw \<and> view_word h4 cw = transfer_word (words_s s ! j)"
      by auto
    from attach_text_no_fail [OF e(3) e(2), of t em]
    obtain h' tp where a: "attach_text t result em h4 = Some (1, em, h')"
      "live h' result = Some (Sentence (Some (?r\<lparr>text_c := tp\<rparr>)))"
      "read_str h' tp = transfer t" "chars_preserved h4 h'"
      "\<forall>q. q \<noteq> result \<and> 0 < q \<and> q \<le> length (cells h4) \<longrightarrow> live h' q = live h4 q"
      by auto
    have ne: "?wp \<noteq> result"
      using e(3,4) by auto
    have w': "live h' ?wp = Some (Words ws')"
      using a(5) e(4) ne live_Some_bounds [OF e(4)] by auto
    have x: "extract_results s t result em h = Some (1, em, h')"
      using l False m e(1) a(1) by (simp add: extract_results_def Let_def)
    have "\<forall>j<?n. \<exists>cw. ws' ! j = Some cw \<and> view_word h' cw = transfer_word (words_s s ! j)"
      using e(6) view_word_preserved [OF a(4)] by blast
    with a(2) w' e(5) a(3) have "view_sentence h' result = Some (transfer_sentence s t)"
      by (intro view_sentence_converted [where r = "?r\<lparr>text_c := tp\<rparr>" and ws = ws']) simp_all
    moreover have "sentence_invariant h' result = (words_s s = [] \<longrightarrow> words_c r0 = nullptr)"
      using a(2) w' e(5) False by (simp add: sentence_invariant_def)
    ultimately show ?thesis using x by blast
  qed
qed

section \<open>The stages of \<^verbatim>\<open>udpipe_process_text\<close>\<close>

lemma report_error_flag: "report_error em msg h = Some (f, e, h') \<Longrightarrow> f = 0"
  by (auto simp: report_error_def split: option.splits prod.splits)

lemma stage_cases:
  obtains (ok) s error where "st = Returns (True, s, error)"
  | (failed) s error where "st = Returns (False, s, error)"
  | (exn) what where "st = Throws_exception what"
  | (other) "st = Throws_other"
proof (cases st)
  case (Returns v)
  obtain b s error where "v = (b, s, error)" by (cases v)
  with Returns ok failed show ?thesis by (cases b) auto
next
  case (Throws_exception what)
  then show ?thesis by (rule exn)
next
  case Throws_other
  then show ?thesis by (rule other)
qed

lemma parsed_sentence_SomeD:
  assumes "parsed_sentence m t = Some s"
  shows "\<exists>tk s1 e1 s2 e2 e3. new_tokenizer m = Returns (Some tk)
           \<and> tk t = Returns (True, s1, e1) \<and> tag m s1 e1 = Returns (True, s2, e2)
           \<and> parse m s2 e2 = Returns (True, s, e3)"
proof (cases "new_tokenizer m")
  case (Returns tok)
  show ?thesis
  proof (cases tok)
    case None
    with Returns assms show ?thesis by (simp add: parsed_sentence_def)
  next
    case (Some tk)
    note tk = Returns [unfolded Some]
    show ?thesis
    proof (cases "tk t" rule: stage_cases)
      case (ok s1 e1)
      note st1 = ok
      show ?thesis
      proof (cases "tag m s1 e1" rule: stage_cases)
        case (ok s2 e2)
        note st2 = ok
        show ?thesis
        proof (cases "parse m s2 e2" rule: stage_cases)
          case (ok s3 e3)
          with tk st1 st2 assms show ?thesis by (simp add: parsed_sentence_def)
        qed (use tk st1 st2 assms in \<open>simp_all add: parsed_sentence_def\<close>)
      qed (use tk st1 assms in \<open>simp_all add: parsed_sentence_def\<close>)
    qed (use tk assms in \<open>simp_all add: parsed_sentence_def\<close>)
  qed
qed (use assms in \<open>simp_all add: parsed_sentence_def\<close>)

lemma process_parsed:
  assumes "result \<noteq> nullptr" and "parsed_sentence m (c_str t) = Some s"
  shows "udpipe_process_text (Some m) (Some t) result em h
           = extract_results s (c_str t) result em h"
proof -
  from parsed_sentence_SomeD [OF assms(2)] obtain tk s1 e1 s2 e2 e3 where
    "new_tokenizer m = Returns (Some tk)" "tk (c_str t) = Returns (True, s1, e1)"
    "tag m s1 e1 = Returns (True, s2, e2)" "parse m s2 e2 = Returns (True, s, e3)"
    by blast
  with assms(1) show ?thesis
    by (simp add: udpipe_process_text_def try_catch_def)
qed

lemma c_str_idem: "c_str (c_str x) = c_str x"
  by (simp add: c_str_def takeWhile_idem)

lemma well_described_stages:
  assumes "well_described m"
  shows "new_tokenizer m = Returns (Some tk) \<Longrightarrow> describes (tk t)"
    and "describes (tag m s e)" and "describes (parse m s e)"
    and "new_tokenizer m = Throws_exception what \<Longrightarrow> c_str (c_str what) \<noteq> []"
  using assms by (auto simp: well_described_def c_str_idem)

lemma literal_messages:
  "c_str ''Invalid parameters'' \<noteq> []" "c_str ''Failed to create tokenizer'' \<noteq> []"
  "c_str ''No sentence found'' \<noteq> []" "c_str ''POS tagging failed'' \<noteq> []"
  "c_str ''Dependency parsing failed'' \<noteq> []" "c_str ''Unknown error occurred'' \<noteq> []"
  by (simp_all add: c_str_def NUL_def)

lemma process_not_parsed:
  assumes r: "result \<noteq> nullptr" and p: "parsed_sentence m (c_str t) = None"
  shows "\<exists>msg. (\<forall>em h. udpipe_process_text (Some m) (Some t) result em h = report_error em msg h)
           \<and> (well_described m \<longrightarrow> c_str msg \<noteq> [])"
proof (cases "new_tokenizer m")
  case (Returns tok)
  show ?thesis
  proof (cases tok)
    case None
    with Returns r show ?thesis
      by (intro exI [of _ "''Failed to create tokenizer''"])
        (simp add: udpipe_process_text_def try_catch_def literal_messages)
  next
    case (Some tk)
    note tk = Returns [unfolded Some]
    show ?thesis
    proof (cases "tk (c_str t)" rule: stage_cases)
      case (ok s1 e1)
      note st1 = ok
      show ?thesis
      proof (cases "tag m s1 e1" rule: stage_cases)
        case (ok s2 e2)
        note st2 = ok
        show ?thesis
        proof (cases "parse m s2 e2" rule: stage_cases)
          case (ok s3 e3)
          with tk st1 st2 p show ?thesis by (simp add: parsed_sentence_def)
        next
          case (failed s3 e3)
          with tk st1 st2 r well_described_stages(3) [of m s2 e2] show ?thesis
            by (intro exI [of _ "if e3 = [] then ''Dependency parsing failed'' else c_str e3"])
              (auto simp add: udpipe_process_text_def try_catch_def describes_def c_str_idem literal_messages)
        next
          case (exn what)
          with tk st1 st2 r well_described_stages(3) [of m s2 e2] show ?thesis
            by (intro exI [of _ "c_str what"])
              (auto simp add: udpipe_process_text_def try_catch_def describes_def c_str_idem)
        next
          case other
          with tk st1 st2 r show ?thesis
            by (intro exI [of _ "''Unknown error occurred''"])
              (simp add: udpipe_process_text_def try_catch_def literal_messages)
        qed
      next
        case (failed s2 e2)
        with tk st1 r well_described_stages(2) [of m s1 e1] show ?thesis
          by (intro exI [of _ "if e2 = [] then ''POS tagging failed'' else c_str e2"])
            (auto simp add: udpipe_process_text_def try_catch_def describes_def c_str_idem literal_messages)
      next
        case (exn what)
        with tk st1 r well_described_stages(2) [of m s1 e1] show ?thesis
          by (intro exI [of _ "c_str what"])
            (auto simp add: udpipe_process_text_def try_catch_def describes_def c_str_idem)
      next
        case other
        with tk st1 r show ?thesis
          by (intro exI [of _ "''Unknown error occurred''"])
            (simp add: udpipe_process_text_def try_catch_def literal_messages)
      qed
    next
      case (failed s1 e1)
      with tk r well_described_stages(1) [of m tk "c_str t"] show ?thesis
        by (intro exI [of _ "if e1 = [] then ''No sentence found'' else c_str e1"])
          (auto simp add: udpipe_process_text_def try_catch_def describes_def c_str_idem literal_messages)
    next
      case (exn what)
      with tk r well_described_stages(1) [of m tk "c_str t"] show ?thesis
        by (intro exI [of _ "c_str what"])
          (auto simp add: udpipe_process_text_def try_catch_def describes_def c_str_idem)
    next
      case other
      with tk r show ?thesis
        by (intro exI [of _ "''Unknown error occurred''"])
          (simp add: udpipe_process_text_def try_catch_def literal_messages)
    qed
  qed
next
  case (Throws_exception what)
  with r well_described_stages(4) [of m what] show ?thesis
    by (intro exI [of _ "c_str what"]) (simp add: udpipe_process_text_def try_catch_def)
next
  case Throws_other
  with r show ?thesis
    by (intro exI [of _ "''Unknown error occurred''"])
      (simp add: udpipe_process_text_def try_catch_def literal_messages)
qed

section \<open>Determinism\<close>

lemma process_invalid:
  "model_ptr = None \<or> text = None \<or> result = nullptr \<Longrightarrow>
     udpipe_process_text model_ptr text result em h = report_error em ''Invalid parameters'' h"
  by (auto simp: udpipe_process_text_def split: option.splits)

lemma produced_report_error: "produced result (report_error em msg h) = None"
  by (auto simp: produced_def report_error_def split: option.splits prod.splits)

lemma flag_report_error: "map_option fst (report_error em msg h) = Some 0"
  by (auto simp: report_error_def split: option.splits prod.splits)

text \<open>
  Claim C9, as amended. For every model and input text, two calls of
  \<^verbatim>\<open>udpipe_process_text\<close> in which no allocation fails, each on a live and
  initialised record of its own, on heaps and with error channels that may differ,
  return the same flag and produce structurally equal sentence records: the same word
  count, the same value of every field of every word, the same text.
\<close>

theorem process_deterministic:
  assumes "no_fail h1" and "no_fail h2"
    and "live h1 r1 = Some (Sentence (Some rec1))" and "live h2 r2 = Some (Sentence (Some rec2))"
  shows "map_option fst (udpipe_process_text model_ptr text r1 e1 h1)
           = map_option fst (udpipe_process_text model_ptr text r2 e2 h2)
         \<and> produced r1 (udpipe_process_text model_ptr text r1 e1 h1)
           = produced r2 (udpipe_process_text model_ptr text r2 e2 h2)"
proof (cases "model_ptr = None \<or> text = None")
  case True
  then have "\<And>r e h. udpipe_process_text model_ptr text r e h
      = report_error e ''Invalid parameters'' h"
    by (intro process_invalid) auto
  then show ?thesis
    by (simp add: produced_report_error flag_report_error)
next
  case False
  then obtain m t where mt: "model_ptr = Some m" "text = Some t" by auto
  have r: "r1 \<noteq> nullptr" "r2 \<noteq> nullptr"
    using assms(3,4) by (auto dest: live_Some_bounds)
  show ?thesis
  proof (cases "parsed_sentence m (c_str t)")
    case None
    from process_not_parsed [OF r(1) None] process_not_parsed [OF r(2) None]
    show ?thesis
      unfolding mt by (auto simp: produced_report_error flag_report_error)
  next
    case (Some s)
    from extract_results_no_fail [OF assms(3) assms(1), of s "c_str t" e1]
    obtain h1' where 1: "extract_results s (c_str t) r1 e1 h1 = Some (1, e1, h1')"
      "view_sentence h1' r1 = Some (transfer_sentence s (c_str t))" by blast
    from extract_results_no_fail [OF assms(4) assms(2), of s "c_str t" e2]
    obtain h2' where 2: "extract_results s (c_str t) r2 e2 h2 = Some (1, e2, h2')"
      "view_sentence h2' r2 = Some (transfer_sentence s (c_str t))" by blast
    show ?thesis
      unfolding mt process_parsed [OF r(1) Some] process_parsed [OF r(2) Some]
      using 1 2 by (simp add: produced_def)
  qed
qed

text \<open>
  Claim C9 at the example model and the text \<open>''a''\<close>: one call on the record at
  address 1 of one heap, the other on the record at address 2 of another heap and without
  an error channel.
\<close>

theorem process_deterministic_witness:
  "no_fail (example_heap (\<lambda>k. True)) \<and> no_fail (example_heap (\<lambda>k. 0 < k))
   \<and> live (example_heap (\<lambda>k. True)) 1
       = Some (Sentence (Some \<lparr>words_c = nullptr, word_count_c = 0, text_c = nullptr\<rparr>))
   \<and> live (snd (udpipe_sentence_create (example_heap (\<lambda>k. 0 < k)))) 2
       = Some (Sentence (Some \<lparr>words_c = nullptr, word_count_c = 0, text_c = nullptr\<rparr>))
   \<and> produced 1 (udpipe_process_text (Some example_model) (Some ''a'') 1 (Some nullptr)
         (example_heap (\<lambda>k. True)))
     = produced 2 (udpipe_process_text (Some example_model) (Some ''a'') 2 None
         (snd (udpipe_sentence_create (example_heap (\<lambda>k. 0 < k)))))
   \<and> produced 1 (udpipe_process_text (Some example_model) (Some ''a'') 1 (Some nullptr)
         (example_heap (\<lambda>k. True)))
     = Some (transfer_sentence
         \<lparr>words_s = [\<lparr>id_w = 1, form_w = ''a'', lemma_w = ''a'', upostag_w = ''X'',
                      xpostag_w = [], feats_w = [], head_w = 0, deprel_w = ''root'',
                      deps_w = [], misc_w = []\<rparr>]\<rparr> ''a'')"
proof -
  let ?h1 = "example_heap (\<lambda>k. True)"
  let ?h2 = "snd (udpipe_sentence_create (example_heap (\<lambda>k. 0 < k)))"
  have h2: "?h2 = \<lparr>cells = [None, Some (Sentence (Some \<lparr>words_c = nullptr, word_count_c = 0,
        text_c = nullptr\<rparr>))], alloc_ok = \<lambda>k. 0 < k\<rparr>"
    by (simp add: example_heap_unfold udpipe_sentence_create_def malloc_def store_def)
  have 1: "no_fail ?h1" and 2: "no_fail (example_heap (\<lambda>k. 0 < k))" and 6: "no_fail ?h2"
    unfolding h2 by (simp_all add: no_fail_def example_heap_unfold)
  have 3: "live ?h1 1
       = Some (Sentence (Some \<lparr>words_c = nullptr, word_count_c = 0, text_c = nullptr\<rparr>))"
    by (simp add: example_heap_unfold live_def)
  have 4: "live ?h2 2
       = Some (Sentence (Some \<lparr>words_c = nullptr, word_count_c = 0, text_c = nullptr\<rparr>))"
    unfolding h2 by (simp add: live_def)
  have 5: "produced 1 (udpipe_process_text (Some example_model) (Some ''a'') 1 (Some nullptr) ?h1)
     = Some (transfer_sentence
         \<lparr>words_s = [\<lparr>id_w = 1, form_w = ''a'', lemma_w = ''a'', upostag_w = ''X'',
                      xpostag_w = [], feats_w = [], head_w = 0, deprel_w = ''root'',
                      deps_w = [], misc_w = []\<rparr>]\<rparr> ''a'')"
    by code_simp
  from process_deterministic [OF 1 6 3 4, of "Some example_model" "Some ''a''" "Some nullptr" None]
    1 2 3 4 5
  show ?thesis by simp
qed

text \<open>
  Claim C9 as stated fails when an allocation fails in one of the calls, with the same
  model and the same text. When the word array cannot be allocated, that call returns 0
  and produces no record while the other returns 1. When the copy of the form cannot be
  allocated, both calls return 1, but the two records differ in the form of the word.
\<close>

theorem process_differs_under_allocation_failure:
  "map_option fst (udpipe_process_text (Some example_model) (Some ''a'') 1 (Some nullptr)
      (example_heap (\<lambda>k. True))) = Some 1
   \<and> map_option fst (udpipe_process_text (Some example_model) (Some ''a'') 1 (Some nullptr)
      (example_heap (\<lambda>k. k \<noteq> 1))) = Some 0
   \<and> map_option fst (udpipe_process_text (Some example_model) (Some ''a'') 1 (Some nullptr)
      (example_heap (\<lambda>k. k \<noteq> 2))) = Some 1
   \<and> produced 1 (udpipe_process_text (Some example_model) (Some ''a'') 1 (Some nullptr)
        (example_heap (\<lambda>k. True)))
     \<noteq> produced 1 (udpipe_process_text (Some example_model) (Some ''a'') 1 (Some nullptr)
        (example_heap (\<lambda>k. k \<noteq> 1)))
   \<and> produced 1 (udpipe_process_text (Some example_model) (Some ''a'') 1 (Some nullptr)
        (example_heap (\<lambda>k. True)))
     \<noteq> produced 1 (udpipe_process_text (Some example_model) (Some ''a'') 1 (Some nullptr)
        (example_heap (\<lambda>k. k \<noteq> 2)))"
  by code_simp

section \<open>The accessor and the conversion agree\<close>

lemma extract_results_SomeD:
  "extract_results s t result em h = Some x \<Longrightarrow> \<exists>r0. live h result = Some (Sentence (Some r0))"
  by (simp add: extract_results_def split: option.splits block.splits)

lemma produced_SomeD:
  assumes "produced result res = Some sv"
  shows "\<exists>e h'. res = Some (1, e, h') \<and> view_sentence h' result = Some sv"
  using assms by (auto simp: produced_def split: option.splits prod.splits if_splits)

text \<open>
  Claim C8, as amended. When a call of \<^verbatim>\<open>udpipe_process_text\<close> in which no
  allocation fails succeeds and produces a sentence record, the record has as many words
  as the internal sentence that reached the conversion, and for every index below that
  number \<^verbatim>\<open>udpipe_sentence_get_word\<close> on that internal sentence, in a call in which
  no allocation fails either, returns 1 and a word whose ten fields equal, field for
  field, those of the word at the same index of the record.
\<close>

theorem round_trip:
  assumes "no_fail h" and "no_fail hg"
    and "produced result (udpipe_process_text (Some m) (Some t) result em h) = Some sv"
  shows "\<exists>s. parsed_sentence m (c_str t) = Some s
           \<and> word_count_v sv = length (words_s s)
           \<and> (\<forall>i<length (words_s s).
                 observe_word (udpipe_sentence_get_word (Some s) i (Some w0) hg)
                   = Some (1, words_v sv ! i))"
proof -
  from produced_SomeD [OF assms(3)] obtain e h' where
    p: "udpipe_process_text (Some m) (Some t) result em h = Some (1, e, h')"
    and v: "view_sentence h' result = Some sv" by blast
  have r: "result \<noteq> nullptr"
  proof
    assume "result = nullptr"
    then have "udpipe_process_text (Some m) (Some t) result em h
        = report_error em ''Invalid parameters'' h"
      by (intro process_invalid) simp
    with p show False by (auto dest: report_error_flag)
  qed
  obtain s where s: "parsed_sentence m (c_str t) = Some s"
  proof (cases "parsed_sentence m (c_str t)")
    case None
    from process_not_parsed [OF r None] obtain msg where
      "udpipe_process_text (Some m) (Some t) result em h = report_error em msg h" by blast
    with p have "report_error em msg h = Some (1, e, h')" by simp
    from report_error_flag [OF this] have False by simp
    then show ?thesis ..
  next
    case (Some s)
    then show ?thesis by (rule that)
  qed
  have x: "extract_results s (c_str t) result em h = Some (1, e, h')"
    using p process_parsed [OF r s] by simp
  then obtain r0 where "live h result = Some (Sentence (Some r0))"
    by (auto dest: extract_results_SomeD)
  from extract_results_no_fail [OF this assms(1), of s "c_str t" em] x v
  have sv: "sv = transfer_sentence s (c_str t)" by auto
  have "observe_word (udpipe_sentence_get_word (Some s) i (Some w0) hg) = Some (1, words_v sv ! i)"
    if i: "i < length (words_s s)" for i
  proof -
    obtain cw hg' where c: "copy_word (words_s s ! i) hg = (cw, hg')" by force
    have "view_word hg' cw = transfer_word (words_s s ! i)"
      using assms(2) c by (rule copy_word_no_fail)
    then show ?thesis
      using i c by (simp add: get_word_is_copy_word observe_word_def sv transfer_sentence_def)
  qed
  with s sv show ?thesis
    by (auto simp: transfer_sentence_def)
qed

text \<open>Claim C8 at the example model and the text \<open>''a''\<close>.\<close>

theorem round_trip_witness:
  "no_fail (example_heap (\<lambda>k. True))
   \<and> produced 1 (udpipe_process_text (Some example_model) (Some ''a'') 1 (Some nullptr)
        (example_heap (\<lambda>k. True)))
     = Some \<lparr>word_count_v = 1,
             words_v = [Some \<lparr>id_v = 1, form_v = Content ''a'', lemma_v = Content ''a'',
                              upostag_v = Content ''X'', xpostag_v = Absent, feats_v = Absent,
                              head_v = 0, deprel_v = Content ''root'', deps_v = Absent,
                              misc_v = Absent\<rparr>],
             text_v = Content ''a''\<rparr>
   \<and> (\<exists>s. parsed_sentence example_model (c_str ''a'') = Some s
         \<and> length (words_s s) = 1
         \<and> observe_word (udpipe_sentence_get_word (Some s) 0 (Some blank_word)
               (example_heap (\<lambda>k. True)))
             = Some (1, Some \<lparr>id_v = 1, form_v = Content ''a'', lemma_v = Content ''a'',
                              upostag_v = Content ''X'', xpostag_v = Absent, feats_v = Absent,
                              head_v = 0, deprel_v = Content ''root'', deps_v = Absent,
                              misc_v = Absent\<rparr>))"
proof -
  have 1: "no_fail (example_heap (\<lambda>k. True))"
    by (simp add: no_fail_def example_heap_unfold)
  have 2: "produced 1 (udpipe_process_text (Some example_model) (Some ''a'') 1 (Some nullptr)
        (example_heap (\<lambda>k. True)))
     = Some \<lparr>word_count_v = 1,
             words_v = [Some \<lparr>id_v = 1, form_v = Content ''a'', lemma_v = Content ''a'',
                              upostag_v = Content ''X'', xpostag_v = Absent, feats_v = Absent,
                              head_v = 0, deprel_v = Content ''root'', deps_v = Absent,
                              misc_v = Absent\<rparr>],
             text_v = Content ''a''\<rparr>"
    by code_simp
  from round_trip [OF 1 1 2, of blank_word] obtain s where
    s: "parsed_sentence example_model (c_str ''a'') = Some s"
    and n: "1 = length (words_s s)"
    and w: "\<forall>i<length (words_s s).
      observe_word (udpipe_sentence_get_word (Some s) i (Some blank_word)
        (example_heap (\<lambda>k. True)))
      = Some (1, [Some \<lparr>id_v = 1, form_v = Content ''a'', lemma_v = Content ''a'',
                              upostag_v = Content ''X'', xpostag_v = Absent, feats_v = Absent,
                              head_v = 0, deprel_v = Content ''root'', deps_v = Absent,
                              misc_v = Absent\<rparr>] ! i)"
    by auto
  from n have "0 < length (words_s s)" by (cases "words_s s") simp_all
  with w have "observe_word (udpipe_sentence_get_word (Some s) 0 (Some blank_word)
        (example_heap (\<lambda>k. True)))
      = Some (1, Some \<lparr>id_v = 1, form_v = Content ''a'', lemma_v = Content ''a'',
                              upostag_v = Content ''X'', xpostag_v = Absent, feats_v = Absent,
                              head_v = 0, deprel_v = Content ''root'', deps_v = Absent,
                              misc_v = Absent\<rparr>)"
    by fastforce
  with s n 1 2 show ?thesis
    by (intro conjI exI [of _ s]) simp_all
qed

text \<open>
  Claim C8 as stated fails when an allocation fails during the conversion: the call
  returns 1 with a word that has no form, while the accessor copies the form
  \<open>''a''\<close> of the same internal word.
\<close>

theorem round_trip_under_allocation_failure:
  "produced 1 (udpipe_process_text (Some example_model) (Some ''a'') 1 (Some nullptr)
        (example_heap (\<lambda>k. k \<noteq> 2)))
     = Some \<lparr>word_count_v = 1,
             words_v = [Some \<lparr>id_v = 1, form_v = Absent, lemma_v = Content ''a'',
                              upostag_v = Content ''X'', xpostag_v = Absent, feats_v = Absent,
                              head_v = 0, deprel_v = Content ''root'', deps_v = Absent,
                              misc_v = Absent\<rparr>],
             text_v = Content ''a''\<rparr>
   \<and> observe_word (udpipe_sentence_get_word (parsed_sentence example_model ''a'') 0
         (Some blank_word) (example_heap (\<lambda>k. True)))
     = Some (1, Some \<lparr>id_v = 1, form_v = Content ''a'', lemma_v = Content ''a'',
                      upostag_v = Content ''X'', xpostag_v = Absent, feats_v = Absent,
                      head_v = 0, deprel_v = Content ''root'', deps_v = Absent,
                      misc_v = Absent\<rparr>)"
  by code_simp

section \<open>The outcome of a call\<close>

lemma report_error_no_fail:
  assumes "no_fail h" and "c_str msg \<noteq> []"
  shows "\<exists>h'. report_error (Some old) msg h = Some (0, Some (Suc (length (cells h))), h')
           \<and> read_str h' (Suc (length (cells h))) = Content (c_str msg)
           \<and> length (cells h') = Suc (length (cells h))
           \<and> (\<forall>q. q \<le> length (cells h) \<longrightarrow> live h' q = live h q)"
proof -
  from assms(2) have "msg \<noteq> []"
    by (auto simp: c_str_def)
  moreover from assms(1) have "alloc_ok h (length (cells h))"
    by (simp add: no_fail_def)
  ultimately show ?thesis
    using report_error_result [of "Some old" msg h] by auto
qed

text \<open>
  Claim C7, as amended. Take a call of \<^verbatim>\<open>udpipe_process_text\<close> with a non-null
  \<^verbatim>\<open>error_msg\<close>, in which no allocation fails, whose record pointer is null or
  points to a live, initialised record, and whose model describes its failures. The call
  returns, and exactly one of two things holds. Either the flag is 1,
  \<^verbatim>\<open>*error_msg\<close> is what it was before the call, and the record is fully populated
  from the sentence that came out of the three stages and from the input text. Or the
  flag is 0, \<^verbatim>\<open>*error_msg\<close> points to one freshly allocated, non-empty description,
  that buffer is the only new block, and every block that existed before, the record
  included, is unchanged. Exceptions of either kind thrown by the model end in the
  second case.
\<close>

theorem process_outcome:
  assumes "no_fail h"
    and "case model_ptr of None \<Rightarrow> True | Some m \<Rightarrow> well_described m"
    and "result = nullptr \<or> (\<exists>r. live h result = Some (Sentence (Some r)))"
  shows "\<exists>flag e h'. udpipe_process_text model_ptr text result (Some old) h = Some (flag, e, h')
           \<and> ((flag = 1 \<and> e = Some old
                 \<and> (\<exists>m t s. model_ptr = Some m \<and> text = Some t
                       \<and> parsed_sentence m (c_str t) = Some s
                       \<and> view_sentence h' result = Some (transfer_sentence s (c_str t))))
              \<or> (flag = 0
                 \<and> (\<exists>msg. msg \<noteq> [] \<and> e = Some (Suc (length (cells h)))
                       \<and> read_str h' (Suc (length (cells h))) = Content msg
                       \<and> length (cells h') = Suc (length (cells h))
                       \<and> (\<forall>q. q \<le> length (cells h) \<longrightarrow> live h' q = live h q))))"
proof -
  have failure: ?thesis
    if "udpipe_process_text model_ptr text result (Some old) h = report_error (Some old) msg h"
      and "c_str msg \<noteq> []" for msg
  proof -
    from report_error_no_fail [OF assms(1) that(2), of old] obtain h' where
      "report_error (Some old) msg h = Some (0, Some (Suc (length (cells h))), h')"
      "read_str h' (Suc (length (cells h))) = Content (c_str msg)"
      "length (cells h') = Suc (length (cells h))"
      "\<forall>q. q \<le> length (cells h) \<longrightarrow> live h' q = live h q"
      by blast
    with that show ?thesis
      by (intro exI [of _ 0] exI [of _ "Some (Suc (length (cells h)))"] exI [of _ h'])
        (auto intro!: exI [of _ "c_str msg"])
  qed
  show ?thesis
  proof (cases "model_ptr = None \<or> text = None \<or> result = nullptr")
    case True
    then have "udpipe_process_text model_ptr text result (Some old) h
        = report_error (Some old) ''Invalid parameters'' h"
      by (rule process_invalid)
    then show ?thesis
      by (rule failure) (rule literal_messages)
  next
    case False
    then obtain m t where mt: "model_ptr = Some m" "text = Some t" and r: "result \<noteq> nullptr"
      by auto
    from assms(3) r obtain r0 where l: "live h result = Some (Sentence (Some r0))"
      by auto
    from assms(2) mt have wd: "well_described m"
      by simp
    show ?thesis
    proof (cases "parsed_sentence m (c_str t)")
      case None
      from process_not_parsed [OF r None] wd obtain msg where
        "udpipe_process_text model_ptr text result (Some old) h = report_error (Some old) msg h"
        "c_str msg \<noteq> []"
        unfolding mt by blast
      then show ?thesis by (rule failure)
    next
      case (Some s)
      from extract_results_no_fail [OF l assms(1), of s "c_str t" "Some old"] obtain h' where
        "extract_results s (c_str t) result (Some old) h = Some (1, Some old, h')"
        "view_sentence h' result = Some (transfer_sentence s (c_str t))"
        by blast
      with process_parsed [OF r Some, of "Some old" h] mt Some show ?thesis
        by (intro exI [of _ 1] exI [of _ "Some old"] exI [of _ h']) simp
    qed
  qed
qed

text \<open>
  Claim C7 at a successful run of the example model and at a model whose
  \<^verbatim>\<open>new_tokenizer\<close> throws an exception with the description \<open>''boom''\<close>.
\<close>

theorem process_outcome_witness:
  "no_fail (example_heap (\<lambda>k. True))
   \<and> well_described example_model \<and> well_described (throwing_model ''boom'')
   \<and> live (example_heap (\<lambda>k. True)) 1
       = Some (Sentence (Some \<lparr>words_c = nullptr, word_count_c = 0, text_c = nullptr\<rparr>))
   \<and> (\<exists>flag e h'.
         udpipe_process_text (Some example_model) (Some ''a'') 1 (Some nullptr)
           (example_heap (\<lambda>k. True)) = Some (flag, e, h')
         \<and> (flag = 1 \<and> e = Some nullptr \<or> flag = 0 \<and> e = Some 2))
   \<and> observe 1 (udpipe_process_text (Some example_model) (Some ''a'') 1 (Some nullptr)
         (example_heap (\<lambda>k. True)))
       = Some (1, Absent, Some (transfer_sentence
           \<lparr>words_s = [\<lparr>id_w = 1, form_w = ''a'', lemma_w = ''a'', upostag_w = ''X'',
                        xpostag_w = [], feats_w = [], head_w = 0, deprel_w = ''root'',
                        deps_w = [], misc_w = []\<rparr>]\<rparr> ''a''))
   \<and> (\<exists>flag e h'.
         udpipe_process_text (Some (throwing_model ''boom'')) (Some ''a'') 1 (Some nullptr)
           (example_heap (\<lambda>k. True)) = Some (flag, e, h')
         \<and> (flag = 1 \<and> e = Some nullptr \<or> flag = 0 \<and> e = Some 2))
   \<and> observe 1 (udpipe_process_text (Some (throwing_model ''boom'')) (Some ''a'') 1 (Some nullptr)
         (example_heap (\<lambda>k. True)))
       = Some (0, Content ''boom'', Some \<lparr>word_count_v = 0, words_v = [], text_v = Absent\<rparr>)"
proof -
  let ?h = "example_heap (\<lambda>k. True)"
  have 1: "no_fail ?h"
    by (simp add: no_fail_def example_heap_unfold)
  have 2: "well_described example_model"
    by (simp add: well_described_def describes_def example_model_def)
  have 3: "well_described (throwing_model ''boom'')"
    by (simp add: well_described_def describes_def throwing_model_def c_str_def NUL_def)
  have 4: "live ?h 1
       = Some (Sentence (Some \<lparr>words_c = nullptr, word_count_c = 0, text_c = nullptr\<rparr>))"
    by (simp add: example_heap_unfold live_def)
  have 5: "length (cells ?h) = 1"
    by (simp add: example_heap_unfold)
  have 6: "observe 1 (udpipe_process_text (Some example_model) (Some ''a'') 1 (Some nullptr) ?h)
       = Some (1, Absent, Some (transfer_sentence
           \<lparr>words_s = [\<lparr>id_w = 1, form_w = ''a'', lemma_w = ''a'', upostag_w = ''X'',
                        xpostag_w = [], feats_w = [], head_w = 0, deprel_w = ''root'',
                        deps_w = [], misc_w = []\<rparr>]\<rparr> ''a''))"
    by code_simp
  have 7: "observe 1 (udpipe_process_text (Some (throwing_model ''boom'')) (Some ''a'') 1
        (Some nullptr) ?h)
       = Some (0, Content ''boom'', Some \<lparr>word_count_v = 0, words_v = [], text_v = Absent\<rparr>)"
    by code_simp
  have a: "\<exists>flag e h'.
         udpipe_process_text (Some example_model) (Some ''a'') 1 (Some nullptr) ?h
           = Some (flag, e, h')
         \<and> (flag = 1 \<and> e = Some nullptr \<or> flag = 0 \<and> e = Some 2)"
    using process_outcome [of ?h "Some example_model" 1 "Some ''a''" nullptr] 1 2 4 5
    by auto
  have b: "\<exists>flag e h'.
         udpipe_process_text (Some (throwing_model ''boom'')) (Some ''a'') 1 (Some nullptr) ?h
           = Some (flag, e, h')
         \<and> (flag = 1 \<and> e = Some nullptr \<or> flag = 0 \<and> e = Some 2)"
    using process_outcome [of ?h "Some (throwing_model ''boom'')" 1 "Some ''a''" nullptr] 1 3 4 5
    by auto
  from 1 2 3 4 6 7 a b show ?thesis
    by blast
qed

text \<open>
  Claim C7 as stated fails in three ways; in each run the caller gets the flag 0 and
  neither a populated record nor a description. In the first \<^verbatim>\<open>error_msg\<close> is null.
  In the second the copy of the description cannot be allocated. In the third the model
  throws an exception whose \<^verbatim>\<open>what()\<close> is empty, and \<^verbatim>\<open>duplicate_string\<close> turns
  the empty description into the null pointer.
\<close>

theorem process_neither_record_nor_error:
  "observe nullptr (udpipe_process_text None None nullptr None (example_heap (\<lambda>k. True)))
     = Some (0, Absent, None)
   \<and> observe 1 (udpipe_process_text None (Some ''a'') 1 (Some nullptr) (example_heap (\<lambda>k. k \<noteq> 1)))
     = Some (0, Absent, Some \<lparr>word_count_v = 0, words_v = [], text_v = Absent\<rparr>)
   \<and> observe 1 (udpipe_process_text (Some (throwing_model [])) (Some ''a'') 1 (Some nullptr)
        (example_heap (\<lambda>k. True)))
     = Some (0, Absent, Some \<lparr>word_count_v = 0, words_v = [], text_v = Absent\<rparr>)"
  by code_simp

end
